theory Spec2Isabelle
  imports
    Complex_Main
    "HOL-Library.Char_ord"
    "HOL-Library.List_Lexorder"
    "HOL-Library.Sublist"
begin

section \<open>The storage layer of MADB (src/js/db.js)\<close>

text \<open>
  This theory embeds \<^verbatim>\<open>src/js/db.js\<close>, the IndexedDB layer of the MADB farm
  record keeper: the four object stores, the key/value access, the farm,
  expense and settings operations, the legacy migration, backup and restore,
  and the task-completion tracker. Every function of \<^verbatim>\<open>db.js\<close> that writes is
  embedded, and of those that only read the ones the statements need.

  Conventions of the embedding.
  \<^item> A JavaScript property that may be missing or \<^verbatim>\<open>null\<close> has type \<open>'a js\<close>.
  \<^item> An object store is an association list kept in ascending key order, the
    order in which IndexedDB enumerates a store. The stores \<^verbatim>\<open>farms\<close> and
    \<^verbatim>\<open>expenses\<close> have the key path \<^verbatim>\<open>id\<close> (in-line keys); \<^verbatim>\<open>farmInfo\<close>
    and \<^verbatim>\<open>settings\<close> take the key as a separate argument.
  \<^item> Every asynchronous function becomes a function from the database to an
    outcome and the database it leaves behind; a rejected promise is \<open>Inl\<close>.
    The database itself is healthy: a request fails only for a reason that its
    arguments determine (IndexedDB's \<^verbatim>\<open>DataError\<close>), never for quota or
    connection loss, and calls do not interleave.
  \<^item> The clock is an argument: a function that reads \<^verbatim>\<open>Date.now()\<close> or
    \<^verbatim>\<open>new Date()\<close> takes the readings, in milliseconds since the epoch. So
    is the time zone of the device, and so are \<^verbatim>\<open>JSON.stringify\<close> and
    \<^verbatim>\<open>JSON.parse\<close>.
\<close>

subsection \<open>JavaScript values\<close>

datatype 'a js = Undefined | Null | Val 'a

text \<open>Truthiness of a string-valued property: \<^verbatim>\<open>undefined\<close>, \<^verbatim>\<open>null\<close> and
  the empty string are falsy.\<close>

fun truthy :: "string js \<Rightarrow> bool" where
  "truthy (Val s) = (s \<noteq> [])"
| "truthy Undefined = False"
| "truthy Null = False"

text \<open>Truthiness of an object- or array-valued property: only \<^verbatim>\<open>undefined\<close>
  and \<^verbatim>\<open>null\<close> are falsy (an empty array is truthy).\<close>

fun present :: "'a js \<Rightarrow> bool" where
  "present (Val x) = True"
| "present Undefined = False"
| "present Null = False"

subsection \<open>Numbers and dates of the platform\<close>

text \<open>The decimal text of an integer, as a template literal renders
  \<^verbatim>\<open>Date.now()\<close>.\<close>

definition digit_char :: "int \<Rightarrow> char" where
  "digit_char d = char_of (48 + d)"

function dec_digits :: "int \<Rightarrow> string" where
  "dec_digits n =
     (if n < 10 then [digit_char n] else dec_digits (n div 10) @ [digit_char (n mod 10)])"
  by pat_completeness auto
termination
  by (relation "measure nat") auto

declare dec_digits.simps [simp del]

definition decimal :: "int \<Rightarrow> string" where
  "decimal i = (if i < 0 then CHR ''-'' # dec_digits (- i) else dec_digits i)"

definition pad :: "nat \<Rightarrow> int \<Rightarrow> string" where
  "pad w n = replicate (w - length (dec_digits n)) CHR ''0'' @ dec_digits n"

definition ms_per_day :: int where
  "ms_per_day = 1000 * 60 * 60 * 24"

text \<open>Days since 1970-01-01 to a calendar date of the proleptic Gregorian
  calendar and back.\<close>

definition civil_from_days :: "int \<Rightarrow> int \<times> int \<times> int" where
  "civil_from_days days =
     (let z = days + 719468;
          era = z div 146097;
          doe = z - era * 146097;
          yoe = (doe - doe div 1460 + doe div 36524 - doe div 146096) div 365;
          doy = doe - (365 * yoe + yoe div 4 - yoe div 100);
          mp = (5 * doy + 2) div 153;
          d = doy - (153 * mp + 2) div 5 + 1;
          m = (if mp < 10 then mp + 3 else mp - 9);
          y = yoe + era * 400 + (if m \<le> 2 then 1 else 0)
      in (y, m, d))"

definition days_from_civil :: "int \<Rightarrow> int \<Rightarrow> int \<Rightarrow> int" where
  "days_from_civil y m d =
     (let y' = (if m \<le> 2 then y - 1 else y);
          era = y' div 400;
          yoe = y' - era * 400;
          doy = (153 * (if m > 2 then m - 3 else m + 9) + 2) div 5 + d - 1;
          doe = yoe * 365 + yoe div 4 - yoe div 100 + doy
      in era * 146097 + doe - 719468)"

text \<open>\<^verbatim>\<open>Date.prototype.toISOString\<close> for an instant of the years 0000 to 9999:
  \<^verbatim>\<open>YYYY-MM-DDTHH:mm:ss.sssZ\<close>.\<close>

definition toISOString :: "int \<Rightarrow> string" where
  "toISOString t =
     (let ms = t mod ms_per_day in
      case civil_from_days (t div ms_per_day) of (y, m, d) \<Rightarrow>
        pad 4 y @ ''-'' @ pad 2 m @ ''-'' @ pad 2 d @ ''T''
        @ pad 2 (ms div 3600000) @ '':'' @ pad 2 (ms div 60000 mod 60) @ '':''
        @ pad 2 (ms div 1000 mod 60) @ ''.'' @ pad 3 (ms mod 1000) @ ''Z'')"

text \<open>\<^verbatim>\<open>new Date(text)\<close> for a text in the date-time string format of
  ECMAScript: a date \<^verbatim>\<open>YYYY\<close>, \<^verbatim>\<open>YYYY-MM\<close> or \<^verbatim>\<open>YYYY-MM-DD\<close>, alone or followed
  by \<^verbatim>\<open>T\<close> and a time \<^verbatim>\<open>HH:mm\<close>, \<^verbatim>\<open>HH:mm:ss\<close> or \<^verbatim>\<open>HH:mm:ss.sss\<close>, and then
  \<^verbatim>\<open>Z\<close>, an offset \<^verbatim>\<open>+HH:mm\<close> or \<^verbatim>\<open>-HH:mm\<close>, or nothing. The result is the
  instant in milliseconds since the epoch; \<open>None\<close> is the invalid date, whose
  time value is \<^verbatim>\<open>NaN\<close>. The day is 01 to 31, and a day past the end of its
  month runs into the next month, as V8 reads it; the hour 24 is accepted for
  \<^verbatim>\<open>24:00:00.000\<close>; of the fraction of a second the first three digits count.
  Years of more than four digits and texts outside the format, which each
  browser reads in its own way, are outside the embedding and come out as
  \<open>None\<close>.\<close>

definition digit_val :: "char \<Rightarrow> nat option" where
  "digit_val c = (if CHR ''0'' \<le> c \<and> c \<le> CHR ''9'' then Some (of_char c - 48) else None)"

fun parse_num :: "nat \<Rightarrow> string \<Rightarrow> nat option" where
  "parse_num acc [] = Some acc"
| "parse_num acc (c # cs) =
     (case digit_val c of None \<Rightarrow> None | Some d \<Rightarrow> parse_num (10 * acc + d) cs)"

text \<open>A number written with exactly \<open>n\<close> digits.\<close>

definition digits :: "nat \<Rightarrow> string \<Rightarrow> nat option" where
  "digits n s = (if length s = n then parse_num 0 s else None)"

text \<open>The date, in days since the epoch.\<close>

definition parse_date :: "string \<Rightarrow> int option" where
  "parse_date s =
     (if length s = 4 then map_option (\<lambda>y. days_from_civil (int y) 1 1) (digits 4 s)
      else if length s = 7 \<and> s ! 4 = CHR ''-'' then
        (case (digits 4 (take 4 s), digits 2 (drop 5 s)) of
           (Some y, Some m) \<Rightarrow>
             (if 1 \<le> m \<and> m \<le> 12 then Some (days_from_civil (int y) (int m) 1) else None)
         | _ \<Rightarrow> None)
      else if length s = 10 \<and> s ! 4 = CHR ''-'' \<and> s ! 7 = CHR ''-'' then
        (case (digits 4 (take 4 s), digits 2 (take 2 (drop 5 s)), digits 2 (drop 8 s)) of
           (Some y, Some m, Some d) \<Rightarrow>
             (if 1 \<le> m \<and> m \<le> 12 \<and> 1 \<le> d \<and> d \<le> 31
              then Some (days_from_civil (int y) (int m) (int d)) else None)
         | _ \<Rightarrow> None)
      else None)"

text \<open>The time of day, in milliseconds.\<close>

definition parse_time :: "string \<Rightarrow> int option" where
  "parse_time s =
     (if length s = 5 \<and> s ! 2 = CHR '':''
         \<or> length s = 8 \<and> s ! 2 = CHR '':'' \<and> s ! 5 = CHR '':''
         \<or> length s \<ge> 10 \<and> s ! 2 = CHR '':'' \<and> s ! 5 = CHR '':'' \<and> s ! 8 = CHR ''.'' then
        (case (digits 2 (take 2 s), parse_num 0 (take 2 (drop 3 s)),
               parse_num 0 (take 2 (drop 6 s)), parse_num 0 (drop 9 s),
               parse_num 0 (take 3 (drop 9 s @ ''00''))) of
           (Some h, Some mi, Some sec, Some fraction, Some ms) \<Rightarrow>
             (if h < 24 \<and> mi < 60 \<and> sec < 60 \<or> h = 24 \<and> mi = 0 \<and> sec = 0 \<and> ms = 0
              then Some (int h * 3600000 + int mi * 60000 + int sec * 1000 + int ms) else None)
         | _ \<Rightarrow> None)
      else None)"

text \<open>A date, \<^verbatim>\<open>T\<close> and a time, without what follows the time: milliseconds
  since the epoch of the time scale the text is on.\<close>

definition date_and_time :: "string \<Rightarrow> int option" where
  "date_and_time s =
     (let date = takeWhile (\<lambda>c. c \<noteq> CHR ''T'') s
      in if length date < length s then
           (case (parse_date date, parse_time (drop (length date + 1) s)) of
              (Some days, Some ms) \<Rightarrow> Some (days * ms_per_day + ms)
            | _ \<Rightarrow> None)
         else None)"

text \<open>The texts whose instant does not depend on the time zone of the device:
  a date alone, which is read as midnight UTC, and a date and time with \<^verbatim>\<open>Z\<close>
  or an offset.\<close>

definition Date_parse :: "string \<Rightarrow> int option" where
  "Date_parse s =
     (if CHR ''T'' \<notin> set s then map_option (\<lambda>d. d * ms_per_day) (parse_date s)
      else if last s = CHR ''Z'' then date_and_time (butlast s)
      else if length s \<ge> 6 \<and> s ! (length s - 3) = CHR '':''
              \<and> (s ! (length s - 6) = CHR ''+'' \<or> s ! (length s - 6) = CHR ''-'') then
        (case (date_and_time (take (length s - 6) s),
               digits 2 (take 2 (drop (length s - 5) s)), digits 2 (drop (length s - 2) s)) of
           (Some t, Some h, Some mi) \<Rightarrow>
             (if h < 24 \<and> mi < 60 then
                Some (if s ! (length s - 6) = CHR ''+''
                      then t - (int h * 3600000 + int mi * 60000)
                      else t + (int h * 3600000 + int mi * 60000))
              else None)
         | _ \<Rightarrow> None)
      else None)"

text \<open>The time zone of the device. The offset of local time from UTC, in
  milliseconds, is given twice, as ECMAScript reads it: \<open>utc_offset\<close> for an
  instant in UTC, \<open>local_offset\<close> for a local time. A zone without daylight
  saving has the same constant for both.\<close>

record timezone =
  utc_offset :: "int \<Rightarrow> int"
  local_offset :: "int \<Rightarrow> int"

definition fixed_zone :: "int \<Rightarrow> timezone" where
  "fixed_zone off = \<lparr>utc_offset = (\<lambda>t. off), local_offset = (\<lambda>t. off)\<rparr>"

text \<open>\<^verbatim>\<open>setHours(0, 0, 0, 0)\<close>: the instant is turned into local time, the time
  of day is cut off, and the local midnight is turned back into an instant.\<close>

definition setHours0 :: "timezone \<Rightarrow> int \<Rightarrow> int" where
  "setHours0 tz t =
     (let local = t + utc_offset tz t;
          midnight = local - local mod ms_per_day
      in midnight - local_offset tz midnight)"

text \<open>\<^verbatim>\<open>new Date(text)\<close>: a date and time with neither \<^verbatim>\<open>Z\<close> nor offset is
  local time, which is turned into an instant.\<close>

definition new_Date :: "timezone \<Rightarrow> string \<Rightarrow> int option" where
  "new_Date tz s =
     (case Date_parse s of
        Some t \<Rightarrow> Some t
      | None \<Rightarrow>
          (case date_and_time s of
             Some local \<Rightarrow> Some (local - local_offset tz local)
           | None \<Rightarrow> None))"

text \<open>The number of the local calendar day of an instant, in a zone with the
  constant offset \<open>off\<close>.\<close>

definition local_day :: "int \<Rightarrow> int \<Rightarrow> int" where
  "local_day off t = (t + off) div ms_per_day"

subsection \<open>Object stores\<close>

datatype error = DataError | NotFound | InvalidFormat

datatype store_name = FARMS | FARM_INFO | EXPENSES | SETTINGS

type_synonym 'v store = "(string \<times> 'v) list"

text \<open>\<^verbatim>\<open>put\<close> under a key: the record replaces the one stored under the key,
  or takes its place in key order.\<close>

fun store_put :: "string \<Rightarrow> 'v \<Rightarrow> 'v store \<Rightarrow> 'v store" where
  "store_put k v [] = [(k, v)]"
| "store_put k v ((k', v') # rest) =
     (if k = k' then (k, v) # rest
      else if k < k' then (k, v) # (k', v') # rest
      else (k', v') # store_put k v rest)"

fun store_get :: "string \<Rightarrow> 'v store \<Rightarrow> 'v option" where
  "store_get k [] = None"
| "store_get k ((k', v') # rest) = (if k = k' then Some v' else store_get k rest)"

definition store_delete :: "string \<Rightarrow> 'v store \<Rightarrow> 'v store" where
  "store_delete k st = filter (\<lambda>kv. fst kv \<noteq> k) st"

definition store_getAll :: "'v store \<Rightarrow> 'v list" where
  "store_getAll st = map snd st"

text \<open>A store is well formed when its keys ascend strictly, so that no key
  occurs twice.\<close>

definition keys_ascend :: "'v store \<Rightarrow> bool" where
  "keys_ascend st = sorted_wrt (<) (map fst st)"

text \<open>In a store with a key path the key of a record is the value of that
  property.\<close>

definition keyed_by :: "('r \<Rightarrow> string js) \<Rightarrow> 'r store \<Rightarrow> bool" where
  "keyed_by keyPath st = list_all (\<lambda>kv. keyPath (snd kv) = Val (fst kv)) st"

fun findIndex :: "('a \<Rightarrow> bool) \<Rightarrow> 'a list \<Rightarrow> nat option" where
  "findIndex p [] = None"
| "findIndex p (x # xs) =
     (if p x then Some 0 else map_option Suc (findIndex p xs))"

subsection \<open>Records\<close>

record taskCompletion =
  stageIndex :: int
  taskIndex :: int
  scheduledDate :: string
  tc_completedDate :: string
  delayDays :: "int option"
  timestamp :: string

record farm =
  farm_id :: "string js"
  farm_name :: "string js"
  farm_size :: "rat js"
  startDate :: "string js"
  cropping :: "string js"
  completed :: "bool js"
  completedDate :: "string js"
  createdAt :: "string js"
  updatedAt :: "string js"
  taskCompletions :: "taskCompletion list js"

record expense =
  expense_id :: "string js"
  farmId :: "string js"
  expense_name :: "string js"
  category :: "string js"
  amount :: "rat js"
  expense_date :: "string js"

text \<open>The legacy record of the single-farm version, as \<^verbatim>\<open>migrateLegacyData\<close>
  reads it.\<close>

record legacy =
  legacy_name :: "string js"
  legacy_size :: "rat js"
  legacy_startDate :: "string js"
  legacy_cropping :: "string js"

text \<open>The backup document of \<^verbatim>\<open>exportAllData\<close> and \<^verbatim>\<open>importAllData\<close>.\<close>

record backup =
  version :: "string js"
  exportDate :: "string js"
  selectedFarmId :: "string js"
  farms :: "farm list js"
  expenses :: "expense list js"

record import_stats =
  farmsImported :: nat
  expensesImported :: nat

text \<open>The database: the four object stores that \<^verbatim>\<open>initDB\<close> creates. The stores
  \<^verbatim>\<open>farmInfo\<close> and \<^verbatim>\<open>settings\<close> hold texts.\<close>

record db =
  farms_store :: "farm store"
  farmInfo_store :: "string store"
  expenses_store :: "expense store"
  settings_store :: "string store"

definition empty_db :: db where
  "empty_db = \<lparr>farms_store = [], farmInfo_store = [], expenses_store = [], settings_store = []\<rparr>"

text \<open>\<^verbatim>\<open>initDB\<close> gives \<^verbatim>\<open>farms\<close> and \<^verbatim>\<open>expenses\<close> the key path \<^verbatim>\<open>id\<close> and
  creates \<^verbatim>\<open>farmInfo\<close> and \<^verbatim>\<open>settings\<close> without one.\<close>

fun has_keyPath :: "store_name \<Rightarrow> bool" where
  "has_keyPath FARMS = True"
| "has_keyPath FARM_INFO = False"
| "has_keyPath EXPENSES = True"
| "has_keyPath SETTINGS = False"

text \<open>The invariant of the database: keys ascend, every farm and expense is
  stored under its \<^verbatim>\<open>id\<close>, and no farm has the empty \<^verbatim>\<open>id\<close> (which \<^verbatim>\<open>saveFarm\<close>
  never stores).\<close>

definition wf_db :: "db \<Rightarrow> bool" where
  "wf_db s =
     (keys_ascend (farms_store s) \<and> keyed_by farm_id (farms_store s)
      \<and> list_all (\<lambda>kv. fst kv \<noteq> []) (farms_store s)
      \<and> keys_ascend (expenses_store s) \<and> keyed_by expense_id (expenses_store s))"

type_synonym 'a outcome = "(error + 'a) \<times> db"

subsection \<open>Key/value access\<close>

definition getStoreName :: "string \<Rightarrow> store_name" where
  "getStoreName key =
     (if key = ''farmInfo'' then FARM_INFO
      else if key = ''expenseData'' \<or> prefix ''expense'' key then EXPENSES
      else SETTINGS)"

text \<open>\<^verbatim>\<open>store.put(value, key)\<close>, with the key as an argument. IndexedDB refuses
  it with a \<^verbatim>\<open>DataError\<close> on a store that has a key path.\<close>

definition put_at :: "store_name \<Rightarrow> string \<Rightarrow> string \<Rightarrow> db \<Rightarrow> unit outcome" where
  "put_at name key text s =
     (if has_keyPath name then (Inl DataError, s)
      else if name = FARM_INFO
        then (Inr (), s\<lparr>farmInfo_store := store_put key text (farmInfo_store s)\<rparr>)
        else (Inr (), s\<lparr>settings_store := store_put key text (settings_store s)\<rparr>))"

text \<open>\<^verbatim>\<open>setItem\<close> serialises the value and puts the text under the key, in the
  store the key is routed to. \<^verbatim>\<open>JSON.stringify\<close> is an argument.\<close>

definition setItem :: "('v \<Rightarrow> string) \<Rightarrow> string \<Rightarrow> 'v \<Rightarrow> db \<Rightarrow> unit outcome" where
  "setItem JSON_stringify key val s =
     (let serializedValue = JSON_stringify val
      in put_at (getStoreName key) key serializedValue s)"

text \<open>\<^verbatim>\<open>getItem\<close> returns \<^verbatim>\<open>null\<close>, here \<open>None\<close>, when nothing is stored under the
  key and when \<^verbatim>\<open>JSON.parse\<close> throws. \<^verbatim>\<open>JSON.parse\<close> is an argument whose \<open>None\<close>
  is a text that does not parse. A record of \<^verbatim>\<open>expenses\<close> or \<^verbatim>\<open>farms\<close> is an
  object, which \<^verbatim>\<open>JSON.parse\<close> rejects.\<close>

definition getItem :: "(string \<Rightarrow> 'a option) \<Rightarrow> string \<Rightarrow> db \<Rightarrow> 'a option" where
  "getItem JSON_parse key s =
     (case getStoreName key of
        FARM_INFO \<Rightarrow>
          (case store_get key (farmInfo_store s) of None \<Rightarrow> None | Some text \<Rightarrow> JSON_parse text)
      | SETTINGS \<Rightarrow>
          (case store_get key (settings_store s) of None \<Rightarrow> None | Some text \<Rightarrow> JSON_parse text)
      | EXPENSES \<Rightarrow> None
      | FARMS \<Rightarrow> None)"

text \<open>\<^verbatim>\<open>removeItem\<close> deletes the key from the store it is routed to; for a key
  routed to the expenses store that is the expense with this id.\<close>

definition removeItem :: "string \<Rightarrow> db \<Rightarrow> db" where
  "removeItem key s =
     (case getStoreName key of
        FARM_INFO \<Rightarrow> s\<lparr>farmInfo_store := store_delete key (farmInfo_store s)\<rparr>
      | EXPENSES \<Rightarrow> s\<lparr>expenses_store := store_delete key (expenses_store s)\<rparr>
      | SETTINGS \<Rightarrow> s\<lparr>settings_store := store_delete key (settings_store s)\<rparr>
      | FARMS \<Rightarrow> s\<lparr>farms_store := store_delete key (farms_store s)\<rparr>)"

text \<open>\<^verbatim>\<open>clearStore\<close>, for the name of one of the four stores.\<close>

fun clearStore :: "store_name \<Rightarrow> db \<Rightarrow> db" where
  "clearStore FARMS s = s\<lparr>farms_store := []\<rparr>"
| "clearStore FARM_INFO s = s\<lparr>farmInfo_store := []\<rparr>"
| "clearStore EXPENSES s = s\<lparr>expenses_store := []\<rparr>"
| "clearStore SETTINGS s = s\<lparr>settings_store := []\<rparr>"

subsection \<open>Farms, expenses and the selected farm\<close>

definition getAllExpenses :: "db \<Rightarrow> expense list" where
  "getAllExpenses s = store_getAll (expenses_store s)"

text \<open>\<^verbatim>\<open>saveExpense\<close>: \<^verbatim>\<open>store.put(expense)\<close> takes the key from \<^verbatim>\<open>expense.id\<close>
  and fails with a \<^verbatim>\<open>DataError\<close> when that is no valid key.\<close>

definition saveExpense :: "expense \<Rightarrow> db \<Rightarrow> unit outcome" where
  "saveExpense expense s =
     (case expense_id expense of
        Val k \<Rightarrow> (Inr (), s\<lparr>expenses_store := store_put k expense (expenses_store s)\<rparr>)
      | _ \<Rightarrow> (Inl DataError, s))"

definition deleteExpense :: "string js \<Rightarrow> db \<Rightarrow> unit outcome" where
  "deleteExpense expenseId s =
     (case expenseId of
        Val k \<Rightarrow> (Inr (), s\<lparr>expenses_store := store_delete k (expenses_store s)\<rparr>)
      | _ \<Rightarrow> (Inl DataError, s))"

definition getAllFarms :: "db \<Rightarrow> farm list" where
  "getAllFarms s = store_getAll (farms_store s)"

text \<open>\<^verbatim>\<open>getFarm\<close> returns the farm or \<^verbatim>\<open>null\<close>, here \<open>None\<close>.\<close>

definition getFarm :: "string \<Rightarrow> db \<Rightarrow> farm option" where
  "getFarm fid s = store_get fid (farms_store s)"

text \<open>\<^verbatim>\<open>saveFarm\<close> gives a farm whose \<^verbatim>\<open>id\<close> is falsy the id \<^verbatim>\<open>farm_\<close> followed by
  the clock reading \<open>now\<close>, puts the farm and returns its id.\<close>

definition saveFarm :: "int \<Rightarrow> farm \<Rightarrow> db \<Rightarrow> string outcome" where
  "saveFarm now farm s =
     (let farm' = (if \<not> truthy (farm_id farm)
                   then farm\<lparr>farm_id := Val (''farm_'' @ decimal now)\<rparr> else farm)
      in case farm_id farm' of
           Val k \<Rightarrow> (Inr k, s\<lparr>farms_store := store_put k farm' (farms_store s)\<rparr>)
         | _ \<Rightarrow> (Inl DataError, s))"

text \<open>\<^verbatim>\<open>deleteFarm\<close> removes the farm and nothing else.\<close>

definition deleteFarm :: "string \<Rightarrow> db \<Rightarrow> db" where
  "deleteFarm fid s = s\<lparr>farms_store := store_delete fid (farms_store s)\<rparr>"

text \<open>\<^verbatim>\<open>getSelectedFarmId\<close> returns \<^verbatim>\<open>result || null\<close>.\<close>

definition getSelectedFarmId :: "db \<Rightarrow> string js" where
  "getSelectedFarmId s =
     (case store_get ''selectedFarmId'' (settings_store s) of
        None \<Rightarrow> Null
      | Some result \<Rightarrow> (if result = [] then Null else Val result))"

definition setSelectedFarmId :: "string \<Rightarrow> db \<Rightarrow> db" where
  "setSelectedFarmId fid s =
     s\<lparr>settings_store := store_put ''selectedFarmId'' fid (settings_store s)\<rparr>"

text \<open>\<^verbatim>\<open>getExpensesByFarm\<close> reads the index \<^verbatim>\<open>farmId\<close>: the expenses whose
  \<^verbatim>\<open>farmId\<close> is the given key, in the order of their own keys.\<close>

definition getExpensesByFarm :: "string \<Rightarrow> db \<Rightarrow> expense list" where
  "getExpensesByFarm fid s = filter (\<lambda>e. farmId e = Val fid) (getAllExpenses s)"

text \<open>The loop of \<^verbatim>\<open>deleteExpensesByFarm\<close>: one \<^verbatim>\<open>deleteExpense\<close> after the other,
  stopping at the first that fails.\<close>

fun delete_each :: "expense list \<Rightarrow> db \<Rightarrow> unit outcome" where
  "delete_each [] s = (Inr (), s)"
| "delete_each (expense # rest) s =
     (case deleteExpense (expense_id expense) s of
        (Inl err, s') \<Rightarrow> (Inl err, s')
      | (Inr _, s') \<Rightarrow> delete_each rest s')"

definition deleteExpensesByFarm :: "string \<Rightarrow> db \<Rightarrow> unit outcome" where
  "deleteExpensesByFarm fid s = delete_each (getExpensesByFarm fid s) s"

subsection \<open>Migration of the legacy record\<close>

text \<open>The loop of \<^verbatim>\<open>migrateLegacyData\<close> over all expenses: an expense whose
  \<^verbatim>\<open>farmId\<close> is falsy gets the new farm's id and is saved.\<close>

fun link_expenses :: "string \<Rightarrow> expense list \<Rightarrow> db \<Rightarrow> unit outcome" where
  "link_expenses newId [] s = (Inr (), s)"
| "link_expenses newId (expense # rest) s =
     (if \<not> truthy (farmId expense) then
        (case saveExpense (expense\<lparr>farmId := Val newId\<rparr>) s of
           (Inl err, s') \<Rightarrow> (Inl err, s')
         | (Inr _, s') \<Rightarrow> link_expenses newId rest s')
      else link_expenses newId rest s)"

text \<open>\<^verbatim>\<open>migrateLegacyData\<close> returns nothing and catches every error, so its
  result is the database it leaves. \<open>JSON_parse\<close> reads the text stored under
  \<^verbatim>\<open>farmInfo\<close> as a legacy record; its \<open>None\<close> is a text that does not parse or
  whose value is falsy. The clock is read for the id (\<open>clk 0\<close>), for
  \<^verbatim>\<open>createdAt\<close> (\<open>clk 1\<close>) and inside \<^verbatim>\<open>saveFarm\<close> (\<open>clk 2\<close>).\<close>

definition migrateLegacyData :: "(string \<Rightarrow> legacy option) \<Rightarrow> (nat \<Rightarrow> int) \<Rightarrow> db \<Rightarrow> db" where
  "migrateLegacyData JSON_parse clk s =
     (case getItem JSON_parse ''farmInfo'' s of
        None \<Rightarrow> s
      | Some legacyFarm \<Rightarrow>
          if length (getAllFarms s) > 0 then s
          else
           (let newId = ''farm_'' @ decimal (clk 0);
                newFarm = \<lparr>farm_id = Val newId,
                           farm_name = legacy_name legacyFarm,
                           farm_size = legacy_size legacyFarm,
                           startDate = legacy_startDate legacyFarm,
                           cropping = legacy_cropping legacyFarm,
                           completed = Undefined,
                           completedDate = Undefined,
                           createdAt = Val (toISOString (clk 1)),
                           updatedAt = Undefined,
                           taskCompletions = Undefined\<rparr>
            in (case saveFarm (clk 2) newFarm s of
                  (Inl err, s1) \<Rightarrow> s1
                | (Inr _, s1) \<Rightarrow>
                    (let s2 = setSelectedFarmId newId s1
                     in snd (link_expenses newId (getAllExpenses s2) s2)))))"

subsection \<open>Completing and reopening a farm\<close>

text \<open>\<^verbatim>\<open>markFarmCompleted\<close> reads the clock for \<^verbatim>\<open>completedDate\<close> (\<open>clk 0\<close>),
  for \<^verbatim>\<open>updatedAt\<close> (\<open>clk 1\<close>) and inside \<^verbatim>\<open>saveFarm\<close> (\<open>clk 2\<close>). The error
  \<^verbatim>\<open>Farm not found\<close> is \<open>NotFound\<close>.\<close>

definition markFarmCompleted :: "(nat \<Rightarrow> int) \<Rightarrow> string \<Rightarrow> db \<Rightarrow> unit outcome" where
  "markFarmCompleted clk fid s =
     (case getFarm fid s of
        None \<Rightarrow> (Inl NotFound, s)
      | Some farm \<Rightarrow>
          (case saveFarm (clk 2)
                  (farm\<lparr>completed := Val True,
                        completedDate := Val (toISOString (clk 0)),
                        updatedAt := Val (toISOString (clk 1))\<rparr>) s of
             (Inl err, s') \<Rightarrow> (Inl err, s')
           | (Inr _, s') \<Rightarrow> (Inr (), s')))"

text \<open>\<^verbatim>\<open>markFarmActive\<close> reads the clock for \<^verbatim>\<open>updatedAt\<close> (\<open>clk 0\<close>) and inside
  \<^verbatim>\<open>saveFarm\<close> (\<open>clk 1\<close>).\<close>

definition markFarmActive :: "(nat \<Rightarrow> int) \<Rightarrow> string \<Rightarrow> db \<Rightarrow> unit outcome" where
  "markFarmActive clk fid s =
     (case getFarm fid s of
        None \<Rightarrow> (Inl NotFound, s)
      | Some farm \<Rightarrow>
          (case saveFarm (clk 1)
                  (farm\<lparr>completed := Val False,
                        completedDate := Null,
                        updatedAt := Val (toISOString (clk 0))\<rparr>) s of
             (Inl err, s') \<Rightarrow> (Inl err, s')
           | (Inr _, s') \<Rightarrow> (Inr (), s')))"

subsection \<open>Task completions\<close>

text \<open>The delay in days: both dates are parsed, moved to local midnight and
  subtracted; the difference in milliseconds is divided by the length of a day
  and rounded down. The quotient of two integers of this size is exact enough
  in floating point for \<^verbatim>\<open>Math.floor\<close> to agree with integer division. With
  an invalid date the delay is \<^verbatim>\<open>NaN\<close>, here \<open>None\<close>.\<close>

definition delay_in_days :: "timezone \<Rightarrow> string \<Rightarrow> string \<Rightarrow> int option" where
  "delay_in_days tz scheduledDate' completedDate' =
     (case (new_Date tz scheduledDate', new_Date tz completedDate') of
        (Some scheduled, Some completed') \<Rightarrow>
          Some ((setHours0 tz completed' - setHours0 tz scheduled) div ms_per_day)
      | _ \<Rightarrow> None)"

definition same_task :: "int \<Rightarrow> int \<Rightarrow> taskCompletion \<Rightarrow> bool" where
  "same_task si ti tc = (stageIndex tc = si \<and> taskIndex tc = ti)"

text \<open>The list of a farm, \<^verbatim>\<open>farm.taskCompletions || []\<close>.\<close>

definition completions_of :: "farm \<Rightarrow> taskCompletion list" where
  "completions_of farm = (case taskCompletions farm of Val tcs \<Rightarrow> tcs | _ \<Rightarrow> [])"

text \<open>\<^verbatim>\<open>saveTaskCompletion\<close> reads the clock for \<^verbatim>\<open>timestamp\<close> (\<open>clk 0\<close>), for
  \<^verbatim>\<open>updatedAt\<close> (\<open>clk 1\<close>) and inside \<^verbatim>\<open>saveFarm\<close> (\<open>clk 2\<close>); \<open>tz\<close> is the
  time zone of the device.\<close>

definition saveTaskCompletion ::
  "timezone \<Rightarrow> (nat \<Rightarrow> int) \<Rightarrow> string \<Rightarrow> int \<Rightarrow> int \<Rightarrow> string \<Rightarrow> string \<Rightarrow> db
     \<Rightarrow> taskCompletion outcome" where
  "saveTaskCompletion tz clk fid si ti scheduledDate' completedDate' s =
     (case getFarm fid s of
        None \<Rightarrow> (Inl NotFound, s)
      | Some farm \<Rightarrow>
         (let tcs = completions_of farm;
              existingIndex = findIndex (same_task si ti) tcs;
              completion = \<lparr>stageIndex = si,
                              taskIndex = ti,
                              scheduledDate = scheduledDate',
                              tc_completedDate = completedDate',
                              delayDays = delay_in_days tz scheduledDate' completedDate',
                              timestamp = toISOString (clk 0)\<rparr>;
              tcs' = (case existingIndex of
                        Some i \<Rightarrow> tcs[i := completion]
                      | None \<Rightarrow> tcs @ [completion])
          in (case saveFarm (clk 2)
                     (farm\<lparr>taskCompletions := Val tcs',
                           updatedAt := Val (toISOString (clk 1))\<rparr>) s of
                (Inl err, s') \<Rightarrow> (Inl err, s')
              | (Inr _, s') \<Rightarrow> (Inr completion, s'))))"

definition getTaskCompletions :: "string \<Rightarrow> db \<Rightarrow> taskCompletion list" where
  "getTaskCompletions fid s =
     (case getFarm fid s of None \<Rightarrow> [] | Some farm \<Rightarrow> completions_of farm)"

text \<open>\<^verbatim>\<open>deleteTaskCompletion\<close> returns at once when there is no farm or the farm
  has no list; otherwise it filters the list, reads the clock for
  \<^verbatim>\<open>updatedAt\<close> (\<open>clk 0\<close>) and saves the farm (\<open>clk 1\<close>).\<close>

definition deleteTaskCompletion ::
  "(nat \<Rightarrow> int) \<Rightarrow> string \<Rightarrow> int \<Rightarrow> int \<Rightarrow> db \<Rightarrow> unit outcome" where
  "deleteTaskCompletion clk fid si ti s =
     (case getFarm fid s of
        None \<Rightarrow> (Inr (), s)
      | Some farm \<Rightarrow>
          (case taskCompletions farm of
             Val tcs \<Rightarrow>
               (case saveFarm (clk 1)
                       (farm\<lparr>taskCompletions := Val (filter (\<lambda>tc. \<not> same_task si ti tc) tcs),
                             updatedAt := Val (toISOString (clk 0))\<rparr>) s of
                  (Inl err, s') \<Rightarrow> (Inl err, s')
                | (Inr _, s') \<Rightarrow> (Inr (), s'))
           | _ \<Rightarrow> (Inr (), s)))"

subsection \<open>Backup and restore\<close>

text \<open>\<^verbatim>\<open>exportAllData\<close> reads the farms, the expenses and the selected farm and
  builds the document; \<open>now\<close> is the clock reading for \<^verbatim>\<open>exportDate\<close>.\<close>

definition exportAllData :: "int \<Rightarrow> db \<Rightarrow> backup outcome" where
  "exportAllData now s =
     (Inr \<lparr>version = Val ''1.0'',
           exportDate = Val (toISOString now),
           selectedFarmId = getSelectedFarmId s,
           farms = Val (getAllFarms s),
           expenses = Val (getAllExpenses s)\<rparr>, s)"

text \<open>The two loops of \<^verbatim>\<open>importAllData\<close>. The \<open>n\<close>-th \<^verbatim>\<open>saveFarm\<close> may read the
  clock, \<open>clk n\<close>.\<close>

fun import_farms :: "(nat \<Rightarrow> int) \<Rightarrow> farm list \<Rightarrow> db \<Rightarrow> unit outcome" where
  "import_farms clk [] s = (Inr (), s)"
| "import_farms clk (farm # rest) s =
     (case saveFarm (clk 0) farm s of
        (Inl err, s') \<Rightarrow> (Inl err, s')
      | (Inr _, s') \<Rightarrow> import_farms (\<lambda>n. clk (Suc n)) rest s')"

fun import_expenses :: "expense list \<Rightarrow> db \<Rightarrow> unit outcome" where
  "import_expenses [] s = (Inr (), s)"
| "import_expenses (expense # rest) s =
     (case saveExpense expense s of
        (Inl err, s') \<Rightarrow> (Inl err, s')
      | (Inr _, s') \<Rightarrow> import_expenses rest s')"

text \<open>The list a document holds under \<^verbatim>\<open>farms\<close> or \<^verbatim>\<open>expenses\<close>; a document
  without the list imports nothing and counts 0.\<close>

definition list_of :: "'a list js \<Rightarrow> 'a list" where
  "list_of l = (case l of Val xs \<Rightarrow> xs | _ \<Rightarrow> [])"

definition restore_selected :: "string js \<Rightarrow> db \<Rightarrow> db" where
  "restore_selected sel s = (if truthy sel then (case sel of Val fid \<Rightarrow> setSelectedFarmId fid s | _ \<Rightarrow> s) else s)"

text \<open>\<^verbatim>\<open>importAllData\<close>: the document is \<^verbatim>\<open>null\<close>, \<^verbatim>\<open>undefined\<close> or an object.
  The error \<^verbatim>\<open>Invalid backup file format\<close> is \<open>InvalidFormat\<close>.\<close>

definition import_document :: "(nat \<Rightarrow> int) \<Rightarrow> backup \<Rightarrow> db \<Rightarrow> import_stats outcome" where
  "import_document clk d s =
     (case import_farms clk (list_of (farms d)) (s\<lparr>farms_store := [], expenses_store := []\<rparr>) of
        (Inl err, s1) \<Rightarrow> (Inl err, s1)
      | (Inr _, s1) \<Rightarrow>
          (case import_expenses (list_of (expenses d)) s1 of
             (Inl err, s2) \<Rightarrow> (Inl err, s2)
           | (Inr _, s2) \<Rightarrow>
               (Inr \<lparr>farmsImported = length (list_of (farms d)),
                     expensesImported = length (list_of (expenses d))\<rparr>,
                restore_selected (selectedFarmId d) s2)))"

definition importAllData :: "(nat \<Rightarrow> int) \<Rightarrow> backup js \<Rightarrow> db \<Rightarrow> import_stats outcome" where
  "importAllData clk data s =
     (case data of
        Val d \<Rightarrow> if \<not> truthy (version d) then (Inl InvalidFormat, s) else import_document clk d s
      | _ \<Rightarrow> (Inl InvalidFormat, s))"

subsection \<open>Notions used in the statements\<close>

text \<open>The value of \<^verbatim>\<open>farm.id\<close> after the first statement of \<^verbatim>\<open>saveFarm\<close>, which
  is the id \<^verbatim>\<open>saveFarm\<close> returns.\<close>

definition saved_id :: "int \<Rightarrow> farm \<Rightarrow> string" where
  "saved_id now farm =
     (case farm_id farm of
        Val k \<Rightarrow> if k \<noteq> [] then k else ''farm_'' @ decimal now
      | _ \<Rightarrow> ''farm_'' @ decimal now)"

text \<open>At most one completion for each pair of stage and task.\<close>

definition task_key :: "taskCompletion \<Rightarrow> int \<times> int" where
  "task_key tc = (stageIndex tc, taskIndex tc)"

definition one_per_task :: "taskCompletion list \<Rightarrow> bool" where
  "one_per_task tcs = distinct (map task_key tcs)"

text \<open>The order of two date properties as texts; a property that holds no text
  is before nothing.\<close>

fun iso_before :: "string js \<Rightarrow> string js \<Rightarrow> bool" where
  "iso_before (Val a) (Val b) = (a < b)"
| "iso_before _ _ = False"

text \<open>What the migration does to an expense: one without a \<^verbatim>\<open>farmId\<close> gets the
  id of the new farm.\<close>

definition relinked :: "string \<Rightarrow> expense \<Rightarrow> expense" where
  "relinked newId expense =
     (if truthy (farmId expense) then expense else expense\<lparr>farmId := Val newId\<rparr>)"

subsection \<open>Sample data\<close>

definition plot_a :: farm where
  "plot_a = \<lparr>farm_id = Undefined, farm_name = Val ''Plot A'', farm_size = Val (3 / 2),
             startDate = Val ''2025-01-01'', cropping = Val ''first'',
             completed = Undefined, completedDate = Undefined,
             createdAt = Val ''2025-01-01T08:00:00.000Z'',
             updatedAt = Val ''2025-01-01T08:00:00.000Z'',
             taskCompletions = Undefined\<rparr>"

definition plot_b :: farm where
  "plot_b = plot_a\<lparr>farm_name := Val ''Plot B'', farm_size := Val 2, cropping := Val ''second''\<rparr>"

definition seeds :: expense where
  "seeds = \<lparr>expense_id = Val ''exp_1'', farmId = Val ''farm_1'', expense_name = Val ''Seeds'',
            category = Val ''inputs'', amount = Val 1200, expense_date = Val ''2025-01-05''\<rparr>"

definition fertilizer :: expense where
  "fertilizer = \<lparr>expense_id = Val ''exp_2'', farmId = Val ''farm_2'',
                 expense_name = Val ''Fertilizer'', category = Val ''inputs'',
                 amount = Val (1750 / 2), expense_date = Val ''2025-02-01''\<rparr>"

definition labor :: expense where
  "labor = \<lparr>expense_id = Val ''exp_3'', farmId = Undefined, expense_name = Val ''Labor'',
            category = Val ''labor'', amount = Val 500, expense_date = Val ''2025-02-03''\<rparr>"

definition sample_db :: db where
  "sample_db =
     \<lparr>farms_store = [(''farm_1'', plot_a\<lparr>farm_id := Val ''farm_1''\<rparr>),
                     (''farm_2'', plot_b\<lparr>farm_id := Val ''farm_2'', taskCompletions := Val []\<rparr>)],
      farmInfo_store = [],
      expenses_store = [(''exp_1'', seeds), (''exp_2'', fertilizer), (''exp_3'', labor)],
      settings_store = [(''selectedFarmId'', ''farm_1'')]\<rparr>"

text \<open>The clock of 2025-03-10, midnight UTC, and a clock that stands still
  there.\<close>

definition t0 :: int where
  "t0 = 1741564800000"

definition still :: "nat \<Rightarrow> int" where
  "still n = t0"

text \<open>Completions: one of the pair (0, 0) and two of the pair (2, 1). A farm
  that holds one completion for each of the two pairs, alone in its database,
  and a farm that holds both completions of the pair (2, 1).\<close>

definition harrowed :: taskCompletion where
  "harrowed = \<lparr>stageIndex = 0, taskIndex = 0, scheduledDate = ''2025-01-02'',
               tc_completedDate = ''2025-01-02'', delayDays = Some 0,
               timestamp = ''2025-01-02T09:00:00.000Z''\<rparr>"

definition sown :: taskCompletion where
  "sown = \<lparr>stageIndex = 2, taskIndex = 1, scheduledDate = ''2025-03-10'',
           tc_completedDate = ''2025-03-11'', delayDays = Some 1,
           timestamp = ''2025-03-11T09:00:00.000Z''\<rparr>"

definition sown_again :: taskCompletion where
  "sown_again = sown\<lparr>tc_completedDate := ''2025-03-12'', delayDays := Some 2,
                     timestamp := ''2025-03-12T09:00:00.000Z''\<rparr>"

definition tracked :: farm where
  "tracked = plot_a\<lparr>farm_id := Val ''farm_4'', taskCompletions := Val [harrowed, sown]\<rparr>"

definition tracked_db :: db where
  "tracked_db = \<lparr>farms_store = [(''farm_4'', tracked)], farmInfo_store = [],
                 expenses_store = [], settings_store = []\<rparr>"

definition sown_twice :: farm where
  "sown_twice = plot_a\<lparr>farm_id := Val ''farm_3'', taskCompletions := Val [sown, sown_again]\<rparr>"

text \<open>A document without the version tag.\<close>

definition unversioned :: backup where
  "unversioned = \<lparr>version = Undefined, exportDate = Val ''2025-03-10T00:00:00.000Z'',
                  selectedFarmId = Val ''farm_9'',
                  farms = Val [plot_b\<lparr>farm_id := Val ''farm_9''\<rparr>],
                  expenses = Val []\<rparr>"

text \<open>\<^verbatim>\<open>JSON.stringify\<close> and \<^verbatim>\<open>JSON.parse\<close> on the two truth values.\<close>

definition stringify_bool :: "bool \<Rightarrow> string" where
  "stringify_bool b = (if b then ''true'' else ''false'')"

definition parse_bool :: "string \<Rightarrow> bool option" where
  "parse_bool text = (if text = ''true'' then Some True else if text = ''false'' then Some False else None)"

text \<open>Philippine time, eight hours ahead of UTC all year.\<close>

definition pht :: timezone where
  "pht = fixed_zone (8 * 3600000)"

text \<open>The time of New York in the months around March 2025: five hours behind
  UTC until 2025-03-09, 02:00 local time (07:00 UTC), four hours behind from
  then on.\<close>

definition new_york :: timezone where
  "new_york =
     \<lparr>utc_offset = (\<lambda>t. if t < 1741503600000 then - 5 * 3600000 else - 4 * 3600000),
      local_offset = (\<lambda>t. if t < 1741485600000 then - 5 * 3600000 else - 4 * 3600000)\<rparr>"

text \<open>The document that \<^verbatim>\<open>exportAllData\<close> makes of the sample database on
  2025-03-10.\<close>

definition sample_backup :: backup where
  "sample_backup =
     \<lparr>version = Val ''1.0'', exportDate = Val ''2025-03-10T00:00:00.000Z'',
      selectedFarmId = Val ''farm_1'',
      farms = Val [plot_a\<lparr>farm_id := Val ''farm_1''\<rparr>,
                   plot_b\<lparr>farm_id := Val ''farm_2'', taskCompletions := Val []\<rparr>],
      expenses = Val [seeds, fertilizer, labor]\<rparr>"

text \<open>A database of the single-farm version: the legacy record under
  \<^verbatim>\<open>farmInfo\<close>, no farm, two expenses without \<^verbatim>\<open>farmId\<close>. \<open>parse_legacy\<close> is
  \<^verbatim>\<open>JSON.parse\<close> on the one text that is stored.\<close>

definition legacy_text :: string where
  \<open>legacy_text = ''{"name":"Plot A","size":1.5,"startDate":"2025-01-01","cropping":"first"}''\<close>

definition parse_legacy :: "string \<Rightarrow> legacy option" where
  "parse_legacy text =
     (if text = legacy_text
      then Some \<lparr>legacy_name = Val ''Plot A'', legacy_size = Val (3 / 2),
                 legacy_startDate = Val ''2025-01-01'', legacy_cropping = Val ''first''\<rparr>
      else None)"

definition legacy_db :: db where
  "legacy_db =
     \<lparr>farms_store = [],
      farmInfo_store = [(''farmInfo'', legacy_text)],
      expenses_store = [(''exp_3'', labor),
                        (''exp_4'', labor\<lparr>expense_id := Val ''exp_4'', farmId := Null\<rparr>)],
      settings_store = []\<rparr>"

section \<open>Properties\<close>

subsection \<open>Stores\<close>

lemma store_get_put_same: "store_get k (store_put k v st) = Some v"
  by (induction st) auto

lemma store_get_put_other: "k' \<noteq> k \<Longrightarrow> store_get k' (store_put k v st) = store_get k' st"
  by (induction st) auto

lemma keys_store_put: "fst ` set (store_put k v st) = insert k (fst ` set st)"
proof (induction st)
  case Nil
  show ?case by simp
next
  case (Cons kv st)
  obtain a b where kv: "kv = (a, b)" by (cases kv)
  consider "k = a" | "k \<noteq> a" "k < a" | "k \<noteq> a" "\<not> k < a" by blast
  then show ?case
  proof cases
    case 1
    then show ?thesis by (simp add: kv)
  next
    case 2
    then show ?thesis by (simp add: kv)
  next
    case 3
    then show ?thesis by (simp add: kv Cons.IH insert_commute)
  qed
qed

lemma keys_ascend_Cons:
  "keys_ascend ((k, v) # st) \<longleftrightarrow> (\<forall>k' \<in> set (map fst st). k < k') \<and> keys_ascend st"
  by (auto simp: keys_ascend_def)

lemma keys_ascend_put: "keys_ascend st \<Longrightarrow> keys_ascend (store_put k v st)"
proof (induction st)
  case Nil
  then show ?case by (simp add: keys_ascend_def)
next
  case (Cons kv st)
  obtain k' v' where kv: "kv = (k', v')" by (cases kv)
  from Cons.prems have tl: "keys_ascend st" and hd: "\<forall>x \<in> set (map fst st). k' < x"
    by (simp_all add: kv keys_ascend_Cons)
  show ?case
  proof (cases "k = k'")
    case True
    with Cons.prems show ?thesis by (simp add: kv keys_ascend_Cons)
  next
    case False
    show ?thesis
    proof (cases "k < k'")
      case True
      with hd tl show ?thesis
        by (auto simp: kv keys_ascend_Cons)
    next
      case ge: False
      with False have "k' < k" by simp
      with hd Cons.IH [OF tl] False ge show ?thesis
        by (simp add: kv keys_ascend_Cons keys_store_put)
    qed
  qed
qed

lemma keyed_by_put:
  "keyed_by kp st \<Longrightarrow> kp v = Val k \<Longrightarrow> keyed_by kp (store_put k v st)"
  by (induction st) (auto simp: keyed_by_def)

lemma nonempty_keys_put:
  "list_all (\<lambda>kv. fst kv \<noteq> []) st \<Longrightarrow> k \<noteq> [] \<Longrightarrow> list_all (\<lambda>kv. fst kv \<noteq> []) (store_put k v st)"
  by (induction st) auto

lemma store_put_append:
  "\<forall>k' \<in> set (map fst pre). k' < k \<Longrightarrow> store_put k v (pre @ rest) = pre @ store_put k v rest"
  by (induction pre) auto

subsection \<open>Saving a farm\<close>

lemma saveFarm_eq:
  "saveFarm now farm s =
     (Inr (saved_id now farm),
      s\<lparr>farms_store := store_put (saved_id now farm) (farm\<lparr>farm_id := Val (saved_id now farm)\<rparr>) (farms_store s)\<rparr>)"
proof -
  have same: "farm_id farm = Val k \<Longrightarrow> farm\<lparr>farm_id := Val k\<rparr> = farm" for k
    by (cases farm) simp
  show ?thesis
    by (cases "farm_id farm") (auto simp: saveFarm_def saved_id_def Let_def same)
qed

lemma saved_id_nonempty: "saved_id now farm \<noteq> []"
  by (cases "farm_id farm") (auto simp: saved_id_def)

lemma saved_id_truthy: "truthy (farm_id farm) \<Longrightarrow> farm_id farm = Val (saved_id now farm)"
  by (cases "farm_id farm") (auto simp: saved_id_def)

lemma saved_id_falsy: "\<not> truthy (farm_id farm) \<Longrightarrow> saved_id now farm = ''farm_'' @ decimal now"
  by (cases "farm_id farm") (auto simp: saved_id_def)

text \<open>
  Claim C6, as amended. \<^verbatim>\<open>saveFarm\<close> always succeeds and returns the id, which
  is never empty. When the \<^verbatim>\<open>id\<close> of the argument is falsy the id is \<^verbatim>\<open>farm_\<close>
  followed by the clock reading in milliseconds; otherwise it is the argument's
  own id. Reading the farm back by the returned id gives the argument with
  that id, whatever was stored under the id before; so the stored record
  carries the \<^verbatim>\<open>updatedAt\<close> of the argument, which \<^verbatim>\<open>saveFarm\<close> does not refresh.
  The farms under every other id are untouched.
\<close>

theorem saveFarm_stores_as_given:
  "fst (saveFarm now farm s) = Inr (saved_id now farm)
   \<and> saved_id now farm \<noteq> []
   \<and> (\<not> truthy (farm_id farm) \<longrightarrow> saved_id now farm = ''farm_'' @ decimal now)
   \<and> (truthy (farm_id farm) \<longrightarrow> farm_id farm = Val (saved_id now farm))
   \<and> getFarm (saved_id now farm) (snd (saveFarm now farm s))
       = Some (farm\<lparr>farm_id := Val (saved_id now farm)\<rparr>)
   \<and> map_option updatedAt (getFarm (saved_id now farm) (snd (saveFarm now farm s)))
       = Some (updatedAt farm)
   \<and> (\<forall>k. k \<noteq> saved_id now farm \<longrightarrow> getFarm k (snd (saveFarm now farm s)) = getFarm k s)"
  by (simp add: saveFarm_eq saved_id_nonempty saved_id_truthy saved_id_falsy getFarm_def
      store_get_put_same store_get_put_other)

theorem saveFarm_stores_as_given_witness:
  "\<not> truthy (farm_id plot_a)
   \<and> fst (saveFarm t0 plot_a sample_db) = Inr ''farm_1741564800000''
   \<and> getFarm ''farm_1741564800000'' (snd (saveFarm t0 plot_a sample_db))
       = Some (plot_a\<lparr>farm_id := Val ''farm_1741564800000''\<rparr>)
   \<and> ''farm_1'' \<noteq> ''farm_1741564800000''
   \<and> getFarm ''farm_1'' (snd (saveFarm t0 plot_a sample_db)) = getFarm ''farm_1'' sample_db"
proof -
  have falsy: "\<not> truthy (farm_id plot_a)"
    by (simp add: plot_a_def)
  have dec: "''farm_'' @ decimal t0 = ''farm_1741564800000''"
    by code_simp
  have other: "''farm_1'' \<noteq> ''farm_1741564800000''"
    by simp
  note inst = saveFarm_stores_as_given [of t0 plot_a sample_db]
  from inst falsy have "saved_id t0 plot_a = ''farm_'' @ decimal t0"
    by (elim conjE) (rule mp)
  then have id: "saved_id t0 plot_a = ''farm_1741564800000''"
    by (simp only: dec)
  note inst' = inst [unfolded id]
  note a = inst' [THEN conjunct1]
  note b = inst' [THEN conjunct2, THEN conjunct2, THEN conjunct2, THEN conjunct2, THEN conjunct1]
  note c = inst' [THEN conjunct2, THEN conjunct2, THEN conjunct2, THEN conjunct2,
      THEN conjunct2, THEN conjunct2, rule_format, OF other]
  show ?thesis
    by (intro conjI) (fact falsy a b other c)+
qed

text \<open>
  Claim C6 fails as stated. On 2025-03-10 \<^verbatim>\<open>saveFarm\<close> stores a farm whose
  \<^verbatim>\<open>updatedAt\<close> is of 2025-01-01 with that old \<^verbatim>\<open>updatedAt\<close>; and two farms
  without id saved at the same clock reading get the same id, so that the
  second replaces the first.
\<close>

theorem saveFarm_refresh_counterexample:
  "toISOString t0 = ''2025-03-10T00:00:00.000Z''
   \<and> map_option updatedAt (getFarm ''farm_1741564800000'' (snd (saveFarm t0 plot_a empty_db)))
       = Some (Val ''2025-01-01T08:00:00.000Z'')
   \<and> fst (saveFarm t0 plot_a empty_db) = Inr ''farm_1741564800000''
   \<and> fst (saveFarm t0 plot_b (snd (saveFarm t0 plot_a empty_db))) = Inr ''farm_1741564800000''
   \<and> getAllFarms (snd (saveFarm t0 plot_b (snd (saveFarm t0 plot_a empty_db))))
       = [plot_b\<lparr>farm_id := Val ''farm_1741564800000''\<rparr>]"
  by code_simp

subsection \<open>Restoring an invalid document\<close>

text \<open>
  Claim C2. When the document is \<^verbatim>\<open>null\<close> or \<^verbatim>\<open>undefined\<close>, or its \<^verbatim>\<open>version\<close>
  is missing (or otherwise falsy), \<^verbatim>\<open>importAllData\<close> fails with \<open>InvalidFormat\<close>
  and the database it leaves is the database it found: no store was touched
  before the check.
\<close>

theorem importAllData_rejects_missing_version:
  "data = Null \<or> data = Undefined \<or> data = Val d \<and> \<not> truthy (version d)
   \<Longrightarrow> importAllData clk data s = (Inl InvalidFormat, s)"
  by (auto simp: importAllData_def)

theorem importAllData_rejects_missing_version_witness:
  "(Val unversioned = Null \<or> Val unversioned = Undefined
      \<or> Val unversioned = Val unversioned \<and> \<not> truthy (version unversioned))
   \<and> importAllData still (Val unversioned) sample_db = (Inl InvalidFormat, sample_db)"
proof -
  have lacks: "Val unversioned = Null \<or> Val unversioned = Undefined
      \<or> Val unversioned = Val unversioned \<and> \<not> truthy (version unversioned)"
    by (simp add: unversioned_def)
  note fails = importAllData_rejects_missing_version [OF lacks, of still sample_db]
  show ?thesis
    by (intro conjI) (fact lacks fails)+
qed

subsection \<open>The invariant of the database\<close>

text \<open>
  The empty database is well formed, and every operation that writes leaves a
  well-formed database well formed, whether it succeeds or fails. So the
  databases that the operations of this file can produce are well formed.
\<close>

lemma wf_db_empty: "wf_db empty_db"
  by (simp add: wf_db_def empty_db_def keys_ascend_def keyed_by_def)

lemma keys_ascend_delete: "keys_ascend st \<Longrightarrow> keys_ascend (store_delete k st)"
proof -
  assume "keys_ascend st"
  then have "sorted_wrt (<) (filter (\<lambda>k'. k' \<noteq> k) (map fst st))"
    unfolding keys_ascend_def by (rule sorted_wrt_filter)
  then show ?thesis
    by (simp add: keys_ascend_def store_delete_def filter_map comp_def)
qed

lemma keyed_by_delete: "keyed_by kp st \<Longrightarrow> keyed_by kp (store_delete k st)"
  by (simp add: keyed_by_def store_delete_def list_all_iff)

lemma wf_db_put_farm:
  assumes "wf_db s" and "farm_id farm = Val k" and "k \<noteq> []"
  shows "wf_db (s\<lparr>farms_store := store_put k farm (farms_store s)\<rparr>)"
  using assms
  by (simp add: wf_db_def keys_ascend_put keyed_by_put nonempty_keys_put)

lemma wf_db_saveFarm: "wf_db s \<Longrightarrow> wf_db (snd (saveFarm now farm s))"
  by (simp add: saveFarm_eq wf_db_put_farm saved_id_nonempty)

lemma wf_db_saveExpense: "wf_db s \<Longrightarrow> wf_db (snd (saveExpense expense s))"
  by (cases "expense_id expense")
     (simp_all add: saveExpense_def wf_db_def keys_ascend_put keyed_by_put)

lemma wf_db_deleteExpense: "wf_db s \<Longrightarrow> wf_db (snd (deleteExpense expenseId s))"
  by (cases expenseId)
     (simp_all add: deleteExpense_def wf_db_def keys_ascend_delete keyed_by_delete)

lemma wf_db_setSelectedFarmId: "wf_db s \<Longrightarrow> wf_db (setSelectedFarmId fid s)"
  by (simp add: setSelectedFarmId_def wf_db_def)

lemma wf_db_setItem: "wf_db s \<Longrightarrow> wf_db (snd (setItem JSON_stringify key v s))"
  by (simp add: setItem_def put_at_def wf_db_def Let_def)

lemma nonempty_keys_delete:
  "list_all (\<lambda>kv. fst kv \<noteq> []) st \<Longrightarrow> list_all (\<lambda>kv. fst kv \<noteq> []) (store_delete k st)"
  by (simp add: store_delete_def list_all_iff)

lemma wf_db_removeItem: "wf_db s \<Longrightarrow> wf_db (removeItem key s)"
  by (cases "getStoreName key")
     (simp_all add: removeItem_def wf_db_def keys_ascend_delete keyed_by_delete
        nonempty_keys_delete)

lemma wf_db_clearStore: "wf_db s \<Longrightarrow> wf_db (clearStore name s)"
  by (cases name) (simp_all add: wf_db_def keys_ascend_def keyed_by_def)

lemma wf_db_deleteFarm: "wf_db s \<Longrightarrow> wf_db (deleteFarm fid s)"
  by (simp add: deleteFarm_def wf_db_def keys_ascend_delete keyed_by_delete nonempty_keys_delete)

lemma wf_db_after_saveFarm:
  "wf_db s \<Longrightarrow>
     wf_db (snd (case saveFarm now farm s of
                   (Inl err, s') \<Rightarrow> (Inl err, s') | (Inr k, s') \<Rightarrow> (Inr (r k), s')))"
  using wf_db_saveFarm [of s now farm] by (simp add: saveFarm_eq)

lemma wf_db_markFarmCompleted: "wf_db s \<Longrightarrow> wf_db (snd (markFarmCompleted clk fid s))"
  by (cases "getFarm fid s") (simp_all add: markFarmCompleted_def wf_db_after_saveFarm)

lemma wf_db_markFarmActive: "wf_db s \<Longrightarrow> wf_db (snd (markFarmActive clk fid s))"
  by (cases "getFarm fid s") (simp_all add: markFarmActive_def wf_db_after_saveFarm)

lemma wf_db_saveTaskCompletion:
  "wf_db s \<Longrightarrow> wf_db (snd (saveTaskCompletion tz clk fid si ti sd cd s))"
  by (cases "getFarm fid s") (simp_all add: saveTaskCompletion_def Let_def wf_db_after_saveFarm)

lemma wf_db_deleteTaskCompletion:
  "wf_db s \<Longrightarrow> wf_db (snd (deleteTaskCompletion clk fid si ti s))"
proof (cases "getFarm fid s")
  case None
  assume "wf_db s"
  with None show ?thesis by (simp add: deleteTaskCompletion_def)
next
  case (Some farm)
  assume "wf_db s"
  with Some show ?thesis
    by (cases "taskCompletions farm") (simp_all add: deleteTaskCompletion_def wf_db_after_saveFarm)
qed

lemma wf_db_delete_each: "wf_db s \<Longrightarrow> wf_db (snd (delete_each es s))"
proof (induction es arbitrary: s)
  case Nil
  then show ?case by simp
next
  case (Cons e es)
  from Cons.prems have step: "wf_db (snd (deleteExpense (expense_id e) s))"
    by (rule wf_db_deleteExpense)
  show ?case
  proof (cases "deleteExpense (expense_id e) s")
    case (Pair r s')
    with step have "wf_db s'" by simp
    with Pair Cons.IH [of s'] show ?thesis
      by (cases r) simp_all
  qed
qed

lemma wf_db_deleteExpensesByFarm: "wf_db s \<Longrightarrow> wf_db (snd (deleteExpensesByFarm fid s))"
  by (simp add: deleteExpensesByFarm_def wf_db_delete_each)

lemma wf_db_link_expenses: "wf_db s \<Longrightarrow> wf_db (snd (link_expenses newId es s))"
proof (induction es arbitrary: s)
  case Nil
  then show ?case by simp
next
  case (Cons e es)
  show ?case
  proof (cases "truthy (farmId e)")
    case True
    with Cons show ?thesis by simp
  next
    case False
    from Cons.prems have step: "wf_db (snd (saveExpense (e\<lparr>farmId := Val newId\<rparr>) s))"
      by (rule wf_db_saveExpense)
    show ?thesis
    proof (cases "saveExpense (e\<lparr>farmId := Val newId\<rparr>) s")
      case (Pair r s')
      with step have "wf_db s'" by simp
      with Pair False Cons.IH [of s'] show ?thesis
        by (cases r) simp_all
    qed
  qed
qed

lemma wf_db_migrateLegacyData: "wf_db s \<Longrightarrow> wf_db (migrateLegacyData JSON_parse clk s)"
  by (auto simp: migrateLegacyData_def Let_def saveFarm_eq wf_db_link_expenses
      wf_db_setSelectedFarmId wf_db_put_farm saved_id_nonempty split: option.split)

lemma wf_db_import_farms: "wf_db s \<Longrightarrow> wf_db (snd (import_farms clk fs s))"
proof (induction fs arbitrary: s clk)
  case Nil
  then show ?case by simp
next
  case (Cons f fs)
  have "wf_db (s\<lparr>farms_store := store_put (saved_id (clk 0) f)
      (f\<lparr>farm_id := Val (saved_id (clk 0) f)\<rparr>) (farms_store s)\<rparr>)"
    using Cons.prems by (simp add: wf_db_put_farm saved_id_nonempty)
  then show ?case
    by (simp add: saveFarm_eq Cons.IH)
qed

lemma wf_db_import_expenses: "wf_db s \<Longrightarrow> wf_db (snd (import_expenses es s))"
proof (induction es arbitrary: s)
  case Nil
  then show ?case by simp
next
  case (Cons e es)
  from Cons.prems have step: "wf_db (snd (saveExpense e s))"
    by (rule wf_db_saveExpense)
  show ?case
  proof (cases "saveExpense e s")
    case (Pair r s')
    with step have "wf_db s'" by simp
    with Pair Cons.IH [of s'] show ?thesis
      by (cases r) simp_all
  qed
qed

lemma wf_db_restore_selected: "wf_db s \<Longrightarrow> wf_db (restore_selected sel s)"
  by (cases sel) (simp_all add: restore_selected_def wf_db_setSelectedFarmId)

lemma wf_db_importAllData:
  assumes "wf_db s"
  shows "wf_db (snd (importAllData clk data s))"
proof (cases data)
  case (Val d)
  have cleared: "wf_db (s\<lparr>farms_store := [], expenses_store := []\<rparr>)"
    by (simp add: wf_db_def keys_ascend_def keyed_by_def)
  show ?thesis
  proof (cases "truthy (version d)")
    case False
    with Val assms show ?thesis by (simp add: importAllData_def)
  next
    case True
    obtain r1 s1 where one: "import_farms clk (list_of (farms d))
        (s\<lparr>farms_store := [], expenses_store := []\<rparr>) = (r1, s1)"
      by (cases "import_farms clk (list_of (farms d)) (s\<lparr>farms_store := [], expenses_store := []\<rparr>)")
    with wf_db_import_farms [OF cleared, of clk "list_of (farms d)"] have wf1: "wf_db s1"
      by simp
    obtain r2 s2 where two: "import_expenses (list_of (expenses d)) s1 = (r2, s2)"
      by (cases "import_expenses (list_of (expenses d)) s1")
    with wf_db_import_expenses [OF wf1, of "list_of (expenses d)"] have wf2: "wf_db s2"
      by simp
    from Val True one two wf1 wf2 show ?thesis
      by (cases r1; cases r2)
         (simp_all add: importAllData_def import_document_def wf_db_restore_selected)
  qed
qed (simp_all add: importAllData_def assms)

subsection \<open>Completing and reopening a farm\<close>

lemma store_get_mem: "store_get k st = Some v \<Longrightarrow> (k, v) \<in> set st"
  by (induction st) (auto split: if_splits)

lemma getFarm_wf:
  assumes "wf_db s" and "getFarm fid s = Some farm"
  shows "farm_id farm = Val fid" and "fid \<noteq> []"
proof -
  from assms(2) have mem: "(fid, farm) \<in> set (farms_store s)"
    by (simp add: getFarm_def store_get_mem)
  from assms(1) have "list_all (\<lambda>kv. farm_id (snd kv) = Val (fst kv)) (farms_store s)"
    and "list_all (\<lambda>kv. fst kv \<noteq> []) (farms_store s)"
    by (simp_all add: wf_db_def keyed_by_def)
  with mem show "farm_id farm = Val fid" and "fid \<noteq> []"
    by (auto simp: list_all_iff)
qed

lemma saveFarm_existing:
  assumes "farm_id farm = Val fid" and "fid \<noteq> []"
  shows "saveFarm now farm s = (Inr fid, s\<lparr>farms_store := store_put fid farm (farms_store s)\<rparr>)"
  using assms by (simp add: saveFarm_def)

lemma markFarmCompleted_existing:
  assumes "wf_db s" and "getFarm fid s = Some farm"
  shows "markFarmCompleted clk fid s =
     (Inr (), s\<lparr>farms_store := store_put fid
         (farm\<lparr>completed := Val True, completedDate := Val (toISOString (clk 0)),
               updatedAt := Val (toISOString (clk 1))\<rparr>) (farms_store s)\<rparr>)"
  using getFarm_wf [OF assms] assms(2)
  by (simp add: markFarmCompleted_def saveFarm_existing)

lemma markFarmActive_existing:
  assumes "getFarm fid s = Some farm" and "farm_id farm = Val fid" and "fid \<noteq> []"
  shows "markFarmActive clk fid s =
     (Inr (), s\<lparr>farms_store := store_put fid
         (farm\<lparr>completed := Val False, completedDate := Null,
               updatedAt := Val (toISOString (clk 0))\<rparr>) (farms_store s)\<rparr>)"
  using assms by (simp add: markFarmActive_def saveFarm_existing)

text \<open>
  Claim C7, as amended. In a well-formed database, for an id under which no
  farm is stored both \<^verbatim>\<open>markFarmCompleted\<close> and \<^verbatim>\<open>markFarmActive\<close> fail with
  \<open>NotFound\<close> and change nothing. For a stored farm \<^verbatim>\<open>markFarmCompleted\<close>
  succeeds and stores the farm with \<^verbatim>\<open>completed = true\<close> and with \<^verbatim>\<open>completedDate\<close>
  and \<^verbatim>\<open>updatedAt\<close> the \<^verbatim>\<open>toISOString\<close> texts of its clock readings;
  \<^verbatim>\<open>markFarmActive\<close> after it succeeds and leaves the farm with
  \<^verbatim>\<open>completed = false\<close>, with \<^verbatim>\<open>completedDate = null\<close> (the property holds no
  date) and with \<^verbatim>\<open>updatedAt\<close> the \<^verbatim>\<open>toISOString\<close> text of its own clock reading;
  the other properties of the farm are as before.
\<close>

theorem mark_completed_then_active:
  assumes "wf_db s"
  shows "(getFarm fid s = None \<longrightarrow>
            markFarmCompleted clk fid s = (Inl NotFound, s)
            \<and> markFarmActive clk' fid s = (Inl NotFound, s))
       \<and> (getFarm fid s = Some farm \<longrightarrow>
            fst (markFarmCompleted clk fid s) = Inr ()
            \<and> getFarm fid (snd (markFarmCompleted clk fid s))
                = Some (farm\<lparr>completed := Val True,
                              completedDate := Val (toISOString (clk 0)),
                              updatedAt := Val (toISOString (clk 1))\<rparr>)
            \<and> fst (markFarmActive clk' fid (snd (markFarmCompleted clk fid s))) = Inr ()
            \<and> getFarm fid (snd (markFarmActive clk' fid (snd (markFarmCompleted clk fid s))))
                = Some (farm\<lparr>completed := Val False,
                              completedDate := Null,
                              updatedAt := Val (toISOString (clk' 0))\<rparr>))"
proof (intro conjI impI)
  assume none: "getFarm fid s = None"
  then show "markFarmCompleted clk fid s = (Inl NotFound, s)"
    by (simp add: markFarmCompleted_def)
  from none show "markFarmActive clk' fid s = (Inl NotFound, s)"
    by (simp add: markFarmActive_def)
next
  assume some: "getFarm fid s = Some farm"
  let ?done = "farm\<lparr>completed := Val True, completedDate := Val (toISOString (clk 0)),
                    updatedAt := Val (toISOString (clk 1))\<rparr>"
  let ?s1 = "s\<lparr>farms_store := store_put fid ?done (farms_store s)\<rparr>"
  have first: "markFarmCompleted clk fid s = (Inr (), ?s1)"
    by (rule markFarmCompleted_existing [OF assms some])
  have got: "getFarm fid ?s1 = Some ?done"
    by (simp add: getFarm_def store_get_put_same)
  have key: "farm_id ?done = Val fid" "fid \<noteq> []"
    using getFarm_wf [OF assms some] by simp_all
  have second: "markFarmActive clk' fid ?s1 =
      (Inr (), ?s1\<lparr>farms_store := store_put fid
         (?done\<lparr>completed := Val False, completedDate := Null,
                 updatedAt := Val (toISOString (clk' 0))\<rparr>) (farms_store ?s1)\<rparr>)"
    by (rule markFarmActive_existing [OF got key])
  show "fst (markFarmCompleted clk fid s) = Inr ()"
    by (simp add: first)
  show "getFarm fid (snd (markFarmCompleted clk fid s)) = Some ?done"
    by (simp only: first snd_conv got)
  show "fst (markFarmActive clk' fid (snd (markFarmCompleted clk fid s))) = Inr ()"
    by (simp only: first snd_conv second fst_conv)
  show "getFarm fid (snd (markFarmActive clk' fid (snd (markFarmCompleted clk fid s))))
          = Some (farm\<lparr>completed := Val False, completedDate := Null,
                        updatedAt := Val (toISOString (clk' 0))\<rparr>)"
    by (simp only: first snd_conv second) (simp add: getFarm_def store_get_put_same)
qed

theorem mark_completed_then_active_witness:
  "wf_db sample_db
   \<and> getFarm ''farm_1'' sample_db = Some (plot_a\<lparr>farm_id := Val ''farm_1''\<rparr>)
   \<and> fst (markFarmCompleted still ''farm_1'' sample_db) = Inr ()
   \<and> getFarm ''farm_1'' (snd (markFarmCompleted still ''farm_1'' sample_db))
       = Some (plot_a\<lparr>farm_id := Val ''farm_1'', completed := Val True,
                      completedDate := Val (toISOString (still 0)),
                      updatedAt := Val (toISOString (still 1))\<rparr>)
   \<and> fst (markFarmActive still ''farm_1'' (snd (markFarmCompleted still ''farm_1'' sample_db)))
       = Inr ()
   \<and> getFarm ''farm_1''
        (snd (markFarmActive still ''farm_1'' (snd (markFarmCompleted still ''farm_1'' sample_db))))
       = Some (plot_a\<lparr>farm_id := Val ''farm_1'', completed := Val False,
                      completedDate := Null,
                      updatedAt := Val (toISOString (still 0))\<rparr>)
   \<and> getFarm ''farm_7'' sample_db = None
   \<and> markFarmCompleted still ''farm_7'' sample_db = (Inl NotFound, sample_db)
   \<and> markFarmActive still ''farm_7'' sample_db = (Inl NotFound, sample_db)"
proof -
  have wf: "wf_db sample_db"
    by code_simp
  have stored: "getFarm ''farm_1'' sample_db = Some (plot_a\<lparr>farm_id := Val ''farm_1''\<rparr>)"
    by code_simp
  have missing: "getFarm ''farm_7'' sample_db = None"
    by code_simp
  note found = mark_completed_then_active [OF wf,
      where fid = "''farm_1''" and clk = still and clk' = still,
      THEN conjunct2, THEN mp, OF stored]
  note not_found = mark_completed_then_active [OF wf,
      where fid = "''farm_7''" and clk = still and clk' = still and farm = plot_a,
      THEN conjunct1, THEN mp, OF missing]
  from wf stored missing found not_found show ?thesis
    apply -
    apply (elim conjE)
    apply (intro conjI)
            apply assumption+
    done
qed

text \<open>
  Claim C7 fails as stated: when both calls read the same millisecond from the
  clock, \<^verbatim>\<open>updatedAt\<close> is the same text after the first and after the second
  call, so it does not increase strictly.
\<close>

theorem mark_completed_then_active_counterexample:
  "fst (markFarmCompleted still ''farm_1'' sample_db) = Inr ()
   \<and> fst (markFarmActive still ''farm_1'' (snd (markFarmCompleted still ''farm_1'' sample_db)))
       = Inr ()
   \<and> map_option updatedAt (getFarm ''farm_1'' (snd (markFarmCompleted still ''farm_1'' sample_db)))
       = Some (Val ''2025-03-10T00:00:00.000Z'')
   \<and> map_option updatedAt (getFarm ''farm_1''
        (snd (markFarmActive still ''farm_1'' (snd (markFarmCompleted still ''farm_1'' sample_db)))))
       = Some (Val ''2025-03-10T00:00:00.000Z'')
   \<and> \<not> iso_before (Val ''2025-03-10T00:00:00.000Z'') (Val ''2025-03-10T00:00:00.000Z'')"
  by code_simp

subsection \<open>Removing a task completion that is not there\<close>

lemma filter_none: "filter p xs = [] \<Longrightarrow> filter (\<lambda>x. \<not> p x) xs = xs"
  by (induction xs) (auto split: if_splits)

text \<open>
  Claim C9, as amended. Let the farm hold no completion for the pair, in a
  well-formed database. \<^verbatim>\<open>deleteTaskCompletion\<close> succeeds. When no farm is stored
  under the id, or the farm has no \<^verbatim>\<open>taskCompletions\<close> list, the database is
  unchanged. When the farm has a list, the farm is saved again: its
  \<^verbatim>\<open>taskCompletions\<close> and every other property are as before, except
  \<^verbatim>\<open>updatedAt\<close>, which becomes the ISO text of the clock reading; the other
  farms, the expenses, the settings and the legacy record are untouched.
\<close>

theorem deleteTaskCompletion_absent_pair:
  assumes "wf_db s" and "filter (same_task si ti) (getTaskCompletions fid s) = []"
  shows "(getFarm fid s = None \<longrightarrow> deleteTaskCompletion clk fid si ti s = (Inr (), s))
       \<and> (getFarm fid s = Some farm \<and> \<not> present (taskCompletions farm) \<longrightarrow>
            deleteTaskCompletion clk fid si ti s = (Inr (), s))
       \<and> (getFarm fid s = Some farm \<and> present (taskCompletions farm) \<longrightarrow>
            fst (deleteTaskCompletion clk fid si ti s) = Inr ()
            \<and> getFarm fid (snd (deleteTaskCompletion clk fid si ti s))
                = Some (farm\<lparr>updatedAt := Val (toISOString (clk 0))\<rparr>)
            \<and> (\<forall>k. k \<noteq> fid \<longrightarrow>
                  getFarm k (snd (deleteTaskCompletion clk fid si ti s)) = getFarm k s)
            \<and> expenses_store (snd (deleteTaskCompletion clk fid si ti s)) = expenses_store s
            \<and> settings_store (snd (deleteTaskCompletion clk fid si ti s)) = settings_store s
            \<and> farmInfo_store (snd (deleteTaskCompletion clk fid si ti s)) = farmInfo_store s)"
proof (intro conjI impI)
  assume "getFarm fid s = None"
  then show "deleteTaskCompletion clk fid si ti s = (Inr (), s)"
    by (simp add: deleteTaskCompletion_def)
next
  assume "getFarm fid s = Some farm \<and> \<not> present (taskCompletions farm)"
  then show "deleteTaskCompletion clk fid si ti s = (Inr (), s)"
    by (cases "taskCompletions farm") (simp_all add: deleteTaskCompletion_def)
next
  assume a: "getFarm fid s = Some farm \<and> present (taskCompletions farm)"
  then obtain tcs where some: "getFarm fid s = Some farm" and tcs: "taskCompletions farm = Val tcs"
    by (cases "taskCompletions farm") auto
  from assms(2) some tcs have "filter (same_task si ti) tcs = []"
    by (simp add: getTaskCompletions_def completions_of_def)
  then have keep: "filter (\<lambda>tc. \<not> same_task si ti tc) tcs = tcs"
    by (rule filter_none)
  have same: "farm\<lparr>taskCompletions := Val tcs, updatedAt := u\<rparr> = farm\<lparr>updatedAt := u\<rparr>" for u
    using tcs by (cases farm) simp
  have key: "farm_id (farm\<lparr>updatedAt := Val (toISOString (clk 0))\<rparr>) = Val fid" "fid \<noteq> []"
    using getFarm_wf [OF assms(1) some] by simp_all
  have run: "deleteTaskCompletion clk fid si ti s =
      (Inr (), s\<lparr>farms_store := store_put fid (farm\<lparr>updatedAt := Val (toISOString (clk 0))\<rparr>)
                                   (farms_store s)\<rparr>)"
    using some tcs keep saveFarm_existing [OF key]
    by (simp add: deleteTaskCompletion_def same)
  show "fst (deleteTaskCompletion clk fid si ti s) = Inr ()"
    by (simp add: run)
  show "getFarm fid (snd (deleteTaskCompletion clk fid si ti s))
          = Some (farm\<lparr>updatedAt := Val (toISOString (clk 0))\<rparr>)"
    by (simp add: run getFarm_def store_get_put_same)
  show "\<forall>k. k \<noteq> fid \<longrightarrow> getFarm k (snd (deleteTaskCompletion clk fid si ti s)) = getFarm k s"
    by (simp add: run getFarm_def store_get_put_other)
  show "expenses_store (snd (deleteTaskCompletion clk fid si ti s)) = expenses_store s"
    by (simp add: run)
  show "settings_store (snd (deleteTaskCompletion clk fid si ti s)) = settings_store s"
    by (simp add: run)
  show "farmInfo_store (snd (deleteTaskCompletion clk fid si ti s)) = farmInfo_store s"
    by (simp add: run)
qed

theorem deleteTaskCompletion_absent_pair_witness:
  "wf_db sample_db
   \<and> filter (same_task 0 0) (getTaskCompletions ''farm_2'' sample_db) = []
   \<and> getFarm ''farm_2'' sample_db
       = Some (plot_b\<lparr>farm_id := Val ''farm_2'', taskCompletions := Val []\<rparr>)
   \<and> present (taskCompletions (plot_b\<lparr>farm_id := Val ''farm_2'', taskCompletions := Val []\<rparr>))
   \<and> fst (deleteTaskCompletion still ''farm_2'' 0 0 sample_db) = Inr ()
   \<and> getFarm ''farm_2'' (snd (deleteTaskCompletion still ''farm_2'' 0 0 sample_db))
       = Some (plot_b\<lparr>farm_id := Val ''farm_2'', taskCompletions := Val [],
                      updatedAt := Val (toISOString (still 0))\<rparr>)
   \<and> ''farm_1'' \<noteq> ''farm_2''
   \<and> getFarm ''farm_1'' (snd (deleteTaskCompletion still ''farm_2'' 0 0 sample_db))
       = getFarm ''farm_1'' sample_db
   \<and> expenses_store (snd (deleteTaskCompletion still ''farm_2'' 0 0 sample_db))
       = expenses_store sample_db
   \<and> filter (same_task 0 0) (getTaskCompletions ''farm_7'' sample_db) = []
   \<and> getFarm ''farm_7'' sample_db = None
   \<and> deleteTaskCompletion still ''farm_7'' 0 0 sample_db = (Inr (), sample_db)"
proof -
  let ?f2 = "plot_b\<lparr>farm_id := Val ''farm_2'', taskCompletions := Val []\<rparr>"
  have wf: "wf_db sample_db"
    by code_simp
  have absent2: "filter (same_task 0 0) (getTaskCompletions ''farm_2'' sample_db) = []"
    by code_simp
  have stored2: "getFarm ''farm_2'' sample_db = Some ?f2"
    by code_simp
  have has_list: "present (taskCompletions ?f2)"
    by simp
  have other: "''farm_1'' \<noteq> ''farm_2''"
    by simp
  have absent7: "filter (same_task 0 0) (getTaskCompletions ''farm_7'' sample_db) = []"
    by code_simp
  have missing: "getFarm ''farm_7'' sample_db = None"
    by code_simp
  note saved = deleteTaskCompletion_absent_pair [OF wf absent2,
      where clk = still and farm = ?f2, THEN conjunct2, THEN conjunct2, THEN mp,
      OF conjI [OF stored2 has_list]]
  note others = saved [THEN conjunct2, THEN conjunct2, THEN conjunct1, rule_format, OF other]
  note noop = deleteTaskCompletion_absent_pair [OF wf absent7,
      where clk = still and farm = plot_a, THEN conjunct1, THEN mp, OF missing]
  from wf absent2 stored2 has_list saved others other absent7 missing noop show ?thesis
    apply -
    apply (elim conjE)
    apply (intro conjI)
               apply assumption+
    done
qed

text \<open>
  Claim C9 fails as stated: a farm whose list is empty holds no completion for
  the pair (0, 0), yet \<^verbatim>\<open>deleteTaskCompletion\<close> replaces its \<^verbatim>\<open>updatedAt\<close> of
  2025-01-01 by the clock reading of 2025-03-10.
\<close>

theorem deleteTaskCompletion_absent_pair_counterexample:
  "filter (same_task 0 0) (getTaskCompletions ''farm_2'' sample_db) = []
   \<and> fst (deleteTaskCompletion still ''farm_2'' 0 0 sample_db) = Inr ()
   \<and> map_option updatedAt (getFarm ''farm_2'' sample_db) = Some (Val ''2025-01-01T08:00:00.000Z'')
   \<and> map_option updatedAt (getFarm ''farm_2'' (snd (deleteTaskCompletion still ''farm_2'' 0 0 sample_db)))
       = Some (Val ''2025-03-10T00:00:00.000Z'')"
  by code_simp

subsection \<open>The key/value mode and the expenses store\<close>

lemma getStoreName_EXPENSES:
  "getStoreName key = EXPENSES \<longleftrightarrow> key = ''expenseData'' \<or> prefix ''expense'' key"
  by (auto simp: getStoreName_def)

text \<open>
  Claim C10. The keys that \<^verbatim>\<open>getStoreName\<close> routes to the expenses store are
  \<^verbatim>\<open>expenseData\<close> and the keys that begin with \<^verbatim>\<open>expense\<close>. For each of them
  and every value \<^verbatim>\<open>setItem\<close> fails, with the \<^verbatim>\<open>DataError\<close> of a put with an
  explicit key on a store that has a key path, and stores nothing. Every other
  key is routed to the settings or to the legacy store; there \<^verbatim>\<open>setItem\<close>
  succeeds, and \<^verbatim>\<open>getItem\<close> reads back the text it stored.
\<close>

theorem setItem_expense_keys_rejected:
  "(key = ''expenseData'' \<or> prefix ''expense'' key \<longrightarrow>
      getStoreName key = EXPENSES
      \<and> setItem JSON_stringify key v s = (Inl DataError, s))
   \<and> (\<not> (key = ''expenseData'' \<or> prefix ''expense'' key) \<longrightarrow>
      (getStoreName key = FARM_INFO \<or> getStoreName key = SETTINGS)
      \<and> fst (setItem JSON_stringify key v s) = Inr ()
      \<and> getItem JSON_parse key (snd (setItem JSON_stringify key v s))
          = JSON_parse (JSON_stringify v))"
proof (intro conjI impI)
  assume "key = ''expenseData'' \<or> prefix ''expense'' key"
  then have routed: "getStoreName key = EXPENSES"
    by (simp only: getStoreName_EXPENSES)
  then show "getStoreName key = EXPENSES" .
  from routed show "setItem JSON_stringify key v s = (Inl DataError, s)"
    by (simp add: setItem_def put_at_def)
next
  assume other: "\<not> (key = ''expenseData'' \<or> prefix ''expense'' key)"
  then have routed: "getStoreName key = FARM_INFO \<or> getStoreName key = SETTINGS"
    by (auto simp: getStoreName_def)
  then show "getStoreName key = FARM_INFO \<or> getStoreName key = SETTINGS" .
  from routed show "fst (setItem JSON_stringify key v s) = Inr ()"
    by (auto simp: setItem_def put_at_def)
  from routed show "getItem JSON_parse key (snd (setItem JSON_stringify key v s))
      = JSON_parse (JSON_stringify v)"
    by (auto simp: setItem_def put_at_def getItem_def store_get_put_same)
qed

theorem setItem_expense_keys_rejected_witness:
  "(''expense_42'' = ''expenseData'' \<or> prefix ''expense'' ''expense_42'')
   \<and> getStoreName ''expense_42'' = EXPENSES
   \<and> setItem stringify_bool ''expense_42'' True sample_db = (Inl DataError, sample_db)
   \<and> \<not> (''notificationSettings'' = ''expenseData'' \<or> prefix ''expense'' ''notificationSettings'')
   \<and> (getStoreName ''notificationSettings'' = FARM_INFO
        \<or> getStoreName ''notificationSettings'' = SETTINGS)
   \<and> fst (setItem stringify_bool ''notificationSettings'' True sample_db) = Inr ()
   \<and> getItem parse_bool ''notificationSettings''
        (snd (setItem stringify_bool ''notificationSettings'' True sample_db))
       = parse_bool (stringify_bool True)"
proof -
  have expense_key: "''expense_42'' = ''expenseData'' \<or> prefix ''expense'' ''expense_42''"
    by code_simp
  have settings_key:
    "\<not> (''notificationSettings'' = ''expenseData'' \<or> prefix ''expense'' ''notificationSettings'')"
    by code_simp
  note rejected = setItem_expense_keys_rejected [where key = "''expense_42''"
      and JSON_stringify = stringify_bool and v = True and s = sample_db
      and JSON_parse = parse_bool, THEN conjunct1, THEN mp, OF expense_key]
  note accepted = setItem_expense_keys_rejected [where key = "''notificationSettings''"
      and JSON_stringify = stringify_bool and v = True and s = sample_db
      and JSON_parse = parse_bool, THEN conjunct2, THEN mp, OF settings_key]
  from expense_key settings_key rejected accepted show ?thesis
    apply -
    apply (elim conjE)
    apply (intro conjI)
          apply assumption+
    done
qed

subsection \<open>The delay of a task completion\<close>

lemma setHours0_day: "setHours0 (fixed_zone off) t = local_day off t * ms_per_day - off"
proof -
  have "(t + off) - (t + off) mod ms_per_day = (t + off) div ms_per_day * ms_per_day"
    by (simp add: minus_mod_eq_div_mult)
  then show ?thesis
    by (simp add: setHours0_def fixed_zone_def local_day_def algebra_simps)
qed

lemma delay_whole_days:
  "(setHours0 (fixed_zone off) c - setHours0 (fixed_zone off) a) div ms_per_day
     = local_day off c - local_day off a"
proof -
  have "setHours0 (fixed_zone off) c - setHours0 (fixed_zone off) a
      = (local_day off c - local_day off a) * ms_per_day"
    by (simp add: setHours0_day algebra_simps)
  moreover have "ms_per_day \<noteq> 0"
    by (simp add: ms_per_day_def)
  ultimately show ?thesis by simp
qed

lemma new_Date_parsed: "Date_parse s = Some t \<Longrightarrow> new_Date tz s = Some t"
  by (simp add: new_Date_def)

lemma delay_in_days_parsed:
  "new_Date (fixed_zone off) sd = Some a \<Longrightarrow> new_Date (fixed_zone off) cd = Some c \<Longrightarrow>
     delay_in_days (fixed_zone off) sd cd = Some (local_day off c - local_day off a)"
  by (simp add: delay_in_days_def delay_whole_days)

lemma local_day_shift: "local_day off (t + n * ms_per_day) = local_day off t + n"
proof -
  have "t + n * ms_per_day + off = t + off + n * ms_per_day"
    by simp
  moreover have "(t + off + n * ms_per_day) div ms_per_day = (t + off) div ms_per_day + n"
    by (simp add: ms_per_day_def)
  ultimately show ?thesis by (simp only: local_day_def)
qed

lemma parse_2025_03_10: "Date_parse ''2025-03-10'' = Some t0"
  by code_simp

lemma parse_2025_03_13: "Date_parse ''2025-03-13'' = Some (t0 + 3 * ms_per_day)"
  by code_simp

lemma parse_2025_03_08: "Date_parse ''2025-03-08'' = Some (t0 + (- 2) * ms_per_day)"
  by code_simp

lemma saveTaskCompletion_result:
  assumes "getFarm fid s = Some farm"
  shows "fst (saveTaskCompletion tz clk fid si ti sd cd s) =
     Inr \<lparr>stageIndex = si, taskIndex = ti, scheduledDate = sd, tc_completedDate = cd,
          delayDays = delay_in_days tz sd cd, timestamp = toISOString (clk 0)\<rparr>"
  using assms
  by (simp add: saveTaskCompletion_def Let_def saveFarm_eq)

text \<open>
  In every zone two instants of one local calendar day are moved to the same
  midnight, so that their delay is 0.
\<close>

lemma delay_same_local_day:
  assumes "new_Date tz sd = Some a" and "new_Date tz cd = Some c"
    and "(a + utc_offset tz a) div ms_per_day = (c + utc_offset tz c) div ms_per_day"
  shows "delay_in_days tz sd cd = Some 0"
proof -
  have "x - x mod ms_per_day = x div ms_per_day * ms_per_day" for x :: int
    by (simp add: minus_mod_eq_div_mult)
  with assms(3) have "setHours0 tz a = setHours0 tz c"
    by (simp add: setHours0_def Let_def)
  with assms(1,2) show ?thesis
    by (simp add: delay_in_days_def)
qed

text \<open>
  What holds of claim C5: in a zone without daylight saving, whatever its
  offset, the delay of two dates that parse is the difference of the numbers
  of their local calendar days, hence 0 for two instants of one local day
  whatever their times of day; scheduled 2025-03-10 and completed 2025-03-13
  give 3, completed 2025-03-08 gives -2.
\<close>

lemma delay_in_days_fixed_zone:
  "(new_Date (fixed_zone off) sd = Some a \<and> new_Date (fixed_zone off) cd = Some c \<longrightarrow>
      delay_in_days (fixed_zone off) sd cd = Some (local_day off c - local_day off a))
   \<and> (new_Date (fixed_zone off) sd = Some a \<and> new_Date (fixed_zone off) cd = Some c
        \<and> local_day off a = local_day off c \<longrightarrow>
      delay_in_days (fixed_zone off) sd cd = Some 0)
   \<and> delay_in_days (fixed_zone off) ''2025-03-10'' ''2025-03-13'' = Some 3
   \<and> delay_in_days (fixed_zone off) ''2025-03-10'' ''2025-03-08'' = Some (- 2)"
proof (intro conjI impI)
  assume "new_Date (fixed_zone off) sd = Some a \<and> new_Date (fixed_zone off) cd = Some c"
  then show "delay_in_days (fixed_zone off) sd cd = Some (local_day off c - local_day off a)"
    by (simp add: delay_in_days_parsed)
next
  assume "new_Date (fixed_zone off) sd = Some a \<and> new_Date (fixed_zone off) cd = Some c
      \<and> local_day off a = local_day off c"
  then show "delay_in_days (fixed_zone off) sd cd = Some 0"
    by (simp add: delay_in_days_parsed)
next
  show "delay_in_days (fixed_zone off) ''2025-03-10'' ''2025-03-13'' = Some 3"
    by (simp only: delay_in_days_parsed [OF new_Date_parsed [OF parse_2025_03_10]
          new_Date_parsed [OF parse_2025_03_13]] local_day_shift)
       simp
next
  show "delay_in_days (fixed_zone off) ''2025-03-10'' ''2025-03-08'' = Some (- 2)"
    by (simp only: delay_in_days_parsed [OF new_Date_parsed [OF parse_2025_03_10]
          new_Date_parsed [OF parse_2025_03_08]] local_day_shift)
       simp
qed

text \<open>
  Claim C5 on a device in New York: scheduled 2025-03-10 and completed
  2025-03-13. \<^verbatim>\<open>new Date\<close> reads the two texts as midnight UTC, which is the
  evening before in New York; \<^verbatim>\<open>setHours(0, 0, 0, 0)\<close> moves them to the local
  midnights of 2025-03-09 (05:00 UTC, before the clocks went forward) and of
  2025-03-12 (04:00 UTC). These are three calendar days but only 71 hours
  apart, and \<^verbatim>\<open>Math.floor\<close> of 71/24 makes the stored \<^verbatim>\<open>delayDays\<close> 2, where the
  claim says 3.
\<close>

theorem saveTaskCompletion_delayDays_new_york:
  "Date_parse ''2025-03-10'' = Some 1741564800000
   \<and> setHours0 new_york 1741564800000 = 1741496400000
   \<and> toISOString 1741496400000 = ''2025-03-09T05:00:00.000Z''
   \<and> Date_parse ''2025-03-13'' = Some 1741824000000
   \<and> setHours0 new_york 1741824000000 = 1741752000000
   \<and> toISOString 1741752000000 = ''2025-03-12T04:00:00.000Z''
   \<and> 1741752000000 - 1741496400000 = 71 * (3600000::int)
   \<and> fst (saveTaskCompletion new_york still ''farm_1'' 2 1 ''2025-03-10'' ''2025-03-13'' sample_db)
       = Inr \<lparr>stageIndex = 2, taskIndex = 1, scheduledDate = ''2025-03-10'',
              tc_completedDate = ''2025-03-13'', delayDays = Some 2,
              timestamp = ''2025-03-10T00:00:00.000Z''\<rparr>"
  by code_simp

subsection \<open>One completion for each task\<close>

lemma findIndex_None: "findIndex p xs = None \<longleftrightarrow> (\<forall>x \<in> set xs. \<not> p x)"
  by (induction xs) auto

lemma findIndex_Some:
  "findIndex p xs = Some i \<Longrightarrow> i < length xs \<and> p (xs ! i)"
  by (induction xs arbitrary: i) (auto split: if_splits)

lemma same_task_key: "same_task si ti tc \<longleftrightarrow> task_key tc = (si, ti)"
  by (auto simp: same_task_def task_key_def)

lemma replace_keeps_keys:
  assumes "i < length xs" and "task_key (xs ! i) = task_key c"
  shows "map task_key (xs[i := c]) = map task_key xs"
proof -
  have "map task_key (xs[i := c]) = (map task_key xs)[i := task_key c]"
    by (rule map_update)
  also have "\<dots> = (map task_key xs)[i := map task_key xs ! i]"
    using assms by simp
  also have "\<dots> = map task_key xs"
    by (rule list_update_id)
  finally show ?thesis .
qed

lemma filter_replaced:
  assumes "distinct (map task_key xs)" and "i < length xs"
    and "task_key (xs ! i) = k" and "task_key c = k"
  shows "filter (\<lambda>x. task_key x = k) (xs[i := c]) = [c]"
  using assms
proof (induction xs arbitrary: i)
  case Nil
  then show ?case by simp
next
  case (Cons x xs)
  show ?case
  proof (cases i)
    case 0
    with Cons.prems have "k \<notin> task_key ` set xs"
      by auto
    then have "\<forall>y \<in> set xs. task_key y \<noteq> k"
      by blast
    then have "filter (\<lambda>x. task_key x = k) xs = []"
      by (simp add: filter_empty_conv)
    with 0 Cons.prems(4) show ?thesis by simp
  next
    case (Suc j)
    with Cons.prems have j: "j < length xs" and kj: "task_key (xs ! j) = k"
      by simp_all
    from j have "xs ! j \<in> set xs" by simp
    with kj have "k \<in> task_key ` set xs" by (auto simp: image_iff)
    with Cons.prems(1) have "task_key x \<noteq> k" by auto
    moreover from Cons.prems(1) have "distinct (map task_key xs)" by simp
    ultimately show ?thesis
      using Suc Cons.IH [OF _ j kj Cons.prems(4)] by simp
  qed
qed

lemma upsert_one_per_task:
  assumes "one_per_task tcs" and "task_key c = (si, ti)"
  shows "one_per_task (case findIndex (same_task si ti) tcs of
                         Some i \<Rightarrow> tcs[i := c] | None \<Rightarrow> tcs @ [c])"
    and "filter (same_task si ti) (case findIndex (same_task si ti) tcs of
                         Some i \<Rightarrow> tcs[i := c] | None \<Rightarrow> tcs @ [c]) = [c]"
proof -
  have pred: "same_task si ti = (\<lambda>x. task_key x = (si, ti))"
    by (rule ext) (simp add: same_task_key)
  show "one_per_task (case findIndex (same_task si ti) tcs of
                         Some i \<Rightarrow> tcs[i := c] | None \<Rightarrow> tcs @ [c])"
  proof (cases "findIndex (same_task si ti) tcs")
    case None
    then have "(si, ti) \<notin> task_key ` set tcs"
      by (auto simp: findIndex_None same_task_key)
    with assms None show ?thesis
      by (simp add: one_per_task_def)
  next
    case (Some i)
    from findIndex_Some [OF Some] have "i < length tcs" and "task_key (tcs ! i) = task_key c"
      by (simp_all add: same_task_key assms(2))
    then have "map task_key (tcs[i := c]) = map task_key tcs"
      by (rule replace_keeps_keys)
    with assms(1) Some show ?thesis
      by (simp add: one_per_task_def)
  qed
  show "filter (same_task si ti) (case findIndex (same_task si ti) tcs of
                         Some i \<Rightarrow> tcs[i := c] | None \<Rightarrow> tcs @ [c]) = [c]"
  proof (cases "findIndex (same_task si ti) tcs")
    case None
    then have "filter (same_task si ti) tcs = []"
      by (auto simp: findIndex_None filter_empty_conv)
    with None assms(2) show ?thesis
      by (simp add: same_task_key)
  next
    case (Some i)
    from findIndex_Some [OF Some] have "i < length tcs" and "task_key (tcs ! i) = (si, ti)"
      by (simp_all add: same_task_key)
    with assms have "filter (\<lambda>x. task_key x = (si, ti)) (tcs[i := c]) = [c]"
      by (intro filter_replaced) (simp_all add: one_per_task_def)
    with Some show ?thesis by (simp add: pred)
  qed
qed

lemma saveTaskCompletion_existing:
  assumes "getFarm fid s = Some farm" and "farm_id farm = Val fid" and "fid \<noteq> []"
  shows "saveTaskCompletion tz clk fid si ti sd cd s =
     (Inr \<lparr>stageIndex = si, taskIndex = ti, scheduledDate = sd, tc_completedDate = cd,
           delayDays = delay_in_days tz sd cd, timestamp = toISOString (clk 0)\<rparr>,
      s\<lparr>farms_store := store_put fid
          (farm\<lparr>taskCompletions :=
                  Val (case findIndex (same_task si ti) (completions_of farm) of
                         Some i \<Rightarrow> (completions_of farm)
                            [i := \<lparr>stageIndex = si, taskIndex = ti, scheduledDate = sd,
                                   tc_completedDate = cd, delayDays = delay_in_days tz sd cd,
                                   timestamp = toISOString (clk 0)\<rparr>]
                       | None \<Rightarrow> completions_of farm @
                            [\<lparr>stageIndex = si, taskIndex = ti, scheduledDate = sd,
                              tc_completedDate = cd, delayDays = delay_in_days tz sd cd,
                              timestamp = toISOString (clk 0)\<rparr>]),
                updatedAt := Val (toISOString (clk 1))\<rparr>) (farms_store s)\<rparr>)"
  using assms
  by (simp add: saveTaskCompletion_def Let_def saveFarm_existing)

lemma getTaskCompletions_put:
  "getTaskCompletions fid (s\<lparr>farms_store := store_put fid f (farms_store s)\<rparr>) = completions_of f"
  by (simp add: getTaskCompletions_def getFarm_def store_get_put_same)

lemma deleteTaskCompletion_one_per_task:
  assumes "wf_db s" and "getFarm fid s = Some farm" and "one_per_task (completions_of farm)"
  shows "one_per_task (getTaskCompletions fid (snd (deleteTaskCompletion clk fid si ti s)))"
proof (cases "taskCompletions farm")
  case (Val tcs)
  have key: "farm_id (farm\<lparr>taskCompletions := Val (filter (\<lambda>tc. \<not> same_task si ti tc) tcs),
                          updatedAt := Val (toISOString (clk 0))\<rparr>) = Val fid" "fid \<noteq> []"
    using getFarm_wf [OF assms(1,2)] by simp_all
  from assms(3) Val have "distinct (map task_key (filter (\<lambda>tc. \<not> same_task si ti tc) tcs))"
    by (simp add: one_per_task_def completions_of_def distinct_map_filter)
  with assms(2) Val show ?thesis
    by (simp add: deleteTaskCompletion_def saveFarm_existing [OF key] getTaskCompletions_put
        completions_of_def one_per_task_def)
next
  case Undefined
  with assms(2,3) show ?thesis
    by (simp add: deleteTaskCompletion_def getTaskCompletions_def)
next
  case Null
  with assms(2,3) show ?thesis
    by (simp add: deleteTaskCompletion_def getTaskCompletions_def)
qed

text \<open>
  Claim C4, as amended. Let a farm of a well-formed database hold at most one
  completion for each pair of stage and task. Then it still does after
  \<^verbatim>\<open>saveTaskCompletion\<close> for any pair and after \<^verbatim>\<open>deleteTaskCompletion\<close>, and
  after two calls of \<^verbatim>\<open>saveTaskCompletion\<close> for the same pair the farm holds
  exactly one completion for that pair: the one with the scheduled date, the
  completion date and the delay of the second call.
\<close>

theorem saveTaskCompletion_one_per_task:
  assumes "wf_db s" and "getFarm fid s = Some farm" and "one_per_task (completions_of farm)"
  shows "one_per_task (getTaskCompletions fid (snd (saveTaskCompletion tz clk fid si ti sd cd s)))
       \<and> one_per_task (getTaskCompletions fid
            (snd (saveTaskCompletion tz clk' fid si ti sd' cd'
                   (snd (saveTaskCompletion tz clk fid si ti sd cd s)))))
       \<and> filter (same_task si ti) (getTaskCompletions fid
            (snd (saveTaskCompletion tz clk' fid si ti sd' cd'
                   (snd (saveTaskCompletion tz clk fid si ti sd cd s)))))
           = [\<lparr>stageIndex = si, taskIndex = ti, scheduledDate = sd', tc_completedDate = cd',
                delayDays = delay_in_days tz sd' cd', timestamp = toISOString (clk' 0)\<rparr>]
       \<and> one_per_task (getTaskCompletions fid (snd (deleteTaskCompletion clk fid si ti s)))"
proof -
  define c1 where "c1 = \<lparr>stageIndex = si, taskIndex = ti, scheduledDate = sd,
      tc_completedDate = cd, delayDays = delay_in_days tz sd cd, timestamp = toISOString (clk 0)\<rparr>"
  define c2 where "c2 = \<lparr>stageIndex = si, taskIndex = ti, scheduledDate = sd',
      tc_completedDate = cd', delayDays = delay_in_days tz sd' cd',
      timestamp = toISOString (clk' 0)\<rparr>"
  define tcs1 where "tcs1 = (case findIndex (same_task si ti) (completions_of farm) of
      Some i \<Rightarrow> (completions_of farm)[i := c1] | None \<Rightarrow> completions_of farm @ [c1])"
  define f1 where "f1 = farm\<lparr>taskCompletions := Val tcs1, updatedAt := Val (toISOString (clk 1))\<rparr>"
  define s1 where "s1 = s\<lparr>farms_store := store_put fid f1 (farms_store s)\<rparr>"
  define tcs2 where "tcs2 = (case findIndex (same_task si ti) tcs1 of
      Some i \<Rightarrow> tcs1[i := c2] | None \<Rightarrow> tcs1 @ [c2])"
  define f2 where "f2 = f1\<lparr>taskCompletions := Val tcs2, updatedAt := Val (toISOString (clk' 1))\<rparr>"
  have key: "farm_id farm = Val fid" "fid \<noteq> []"
    using getFarm_wf [OF assms(1,2)] by simp_all
  have k1: "task_key c1 = (si, ti)" and k2: "task_key c2 = (si, ti)"
    by (simp_all add: c1_def c2_def task_key_def)
  have run1: "snd (saveTaskCompletion tz clk fid si ti sd cd s) = s1"
    unfolding s1_def f1_def tcs1_def c1_def
    by (simp only: saveTaskCompletion_existing [OF assms(2) key] snd_conv)
  have got1: "getFarm fid s1 = Some f1"
    by (simp add: s1_def getFarm_def store_get_put_same)
  have key1: "farm_id f1 = Val fid"
    by (simp add: f1_def key)
  have list1: "completions_of f1 = tcs1"
    by (simp add: f1_def completions_of_def)
  have run2: "snd (saveTaskCompletion tz clk' fid si ti sd' cd' s1)
      = s1\<lparr>farms_store := store_put fid f2 (farms_store s1)\<rparr>"
    unfolding f2_def tcs2_def c2_def
    by (simp only: saveTaskCompletion_existing [OF got1 key1 key(2)] snd_conv list1)
  have list2: "completions_of f2 = tcs2"
    by (simp add: f2_def completions_of_def)
  have inv1: "one_per_task tcs1"
    unfolding tcs1_def by (rule upsert_one_per_task(1) [OF assms(3) k1])
  have inv2: "one_per_task tcs2" and only: "filter (same_task si ti) tcs2 = [c2]"
    unfolding tcs2_def by (rule upsert_one_per_task [OF inv1 k2])+
  have after1: "getTaskCompletions fid (snd (saveTaskCompletion tz clk fid si ti sd cd s)) = tcs1"
    by (simp only: run1 s1_def getTaskCompletions_put list1)
  have after2: "getTaskCompletions fid
      (snd (saveTaskCompletion tz clk' fid si ti sd' cd'
             (snd (saveTaskCompletion tz clk fid si ti sd cd s)))) = tcs2"
    by (simp only: run1 run2 getTaskCompletions_put list2)
  show ?thesis
    using inv1 inv2 only deleteTaskCompletion_one_per_task [OF assms]
    by (simp only: after1 after2 c2_def simp_thms)
qed

theorem saveTaskCompletion_one_per_task_witness:
  "wf_db tracked_db
   \<and> getFarm ''farm_4'' tracked_db = Some tracked
   \<and> completions_of tracked = [harrowed, sown]
   \<and> one_per_task (completions_of tracked)
   \<and> one_per_task (getTaskCompletions ''farm_4''
        (snd (saveTaskCompletion pht still ''farm_4'' 2 1 ''2025-03-10'' ''2025-03-13'' tracked_db)))
   \<and> one_per_task (getTaskCompletions ''farm_4''
        (snd (saveTaskCompletion pht still ''farm_4'' 2 1 ''2025-03-10'' ''2025-03-08''
               (snd (saveTaskCompletion pht still ''farm_4'' 2 1 ''2025-03-10'' ''2025-03-13''
                      tracked_db)))))
   \<and> filter (same_task 2 1) (getTaskCompletions ''farm_4''
        (snd (saveTaskCompletion pht still ''farm_4'' 2 1 ''2025-03-10'' ''2025-03-08''
               (snd (saveTaskCompletion pht still ''farm_4'' 2 1 ''2025-03-10'' ''2025-03-13''
                      tracked_db)))))
       = [\<lparr>stageIndex = 2, taskIndex = 1, scheduledDate = ''2025-03-10'',
            tc_completedDate = ''2025-03-08'',
            delayDays = delay_in_days pht ''2025-03-10'' ''2025-03-08'',
            timestamp = toISOString (still 0)\<rparr>]
   \<and> one_per_task (getTaskCompletions ''farm_4''
        (snd (deleteTaskCompletion still ''farm_4'' 2 1 tracked_db)))"
proof -
  have wf: "wf_db tracked_db"
    by code_simp
  have stored: "getFarm ''farm_4'' tracked_db = Some tracked"
    by code_simp
  have two: "completions_of tracked = [harrowed, sown]"
    by code_simp
  have inv: "one_per_task (completions_of tracked)"
    by code_simp
  note inst = saveTaskCompletion_one_per_task [OF wf stored inv, where tz = pht and clk = still
      and clk' = still and si = 2 and ti = 1 and sd = "''2025-03-10''" and cd = "''2025-03-13''"
      and sd' = "''2025-03-10''" and cd' = "''2025-03-08''"]
  from wf stored two inv inst show ?thesis
    apply -
    apply (elim conjE)
    apply (intro conjI)
           apply assumption+
    done
qed

text \<open>
  Claim C4 fails as stated. \<^verbatim>\<open>saveFarm\<close> stores the list of a farm as it is
  given, so a farm saved with two completions for the pair (2, 1) holds two
  records for that pair, in a well-formed database. \<^verbatim>\<open>saveTaskCompletion\<close>
  replaces only the first record that \<^verbatim>\<open>findIndex\<close> finds: after two calls for
  the pair the farm still holds two records for it, the completion of the
  second call and the old second record.
\<close>

theorem saveTaskCompletion_one_per_task_counterexample:
  "fst (saveFarm t0 sown_twice empty_db) = Inr ''farm_3''
   \<and> wf_db (snd (saveFarm t0 sown_twice empty_db))
   \<and> getTaskCompletions ''farm_3'' (snd (saveFarm t0 sown_twice empty_db)) = [sown, sown_again]
   \<and> same_task 2 1 sown
   \<and> same_task 2 1 sown_again
   \<and> filter (same_task 2 1) (getTaskCompletions ''farm_3''
        (snd (saveTaskCompletion pht still ''farm_3'' 2 1 ''2025-03-10'' ''2025-03-08''
               (snd (saveTaskCompletion pht still ''farm_3'' 2 1 ''2025-03-10'' ''2025-03-13''
                      (snd (saveFarm t0 sown_twice empty_db)))))))
       = [\<lparr>stageIndex = 2, taskIndex = 1, scheduledDate = ''2025-03-10'',
            tc_completedDate = ''2025-03-08'', delayDays = Some (- 2),
            timestamp = ''2025-03-10T00:00:00.000Z''\<rparr>,
          sown_again]"
  by code_simp

subsection \<open>Deleting the expenses of a farm\<close>

lemma keys_ascend_distinct: "keys_ascend st \<Longrightarrow> distinct (map fst st)"
  by (simp add: keys_ascend_def strict_sorted_iff)

lemma delete_each_result:
  assumes "\<forall>e \<in> set es. \<exists>k. expense_id e = Val k"
  shows "delete_each es s =
     (Inr (), s\<lparr>expenses_store :=
                  filter (\<lambda>kv. Val (fst kv) \<notin> expense_id ` set es) (expenses_store s)\<rparr>)"
  using assms
proof (induction es arbitrary: s)
  case Nil
  then show ?case by simp
next
  case (Cons e es)
  then obtain k where k: "expense_id e = Val k"
    by auto
  from Cons.prems have rest: "\<forall>e \<in> set es. \<exists>k. expense_id e = Val k"
    by simp
  show ?case
    by (simp add: k deleteExpense_def Cons.IH [OF rest] store_delete_def conj_commute)
qed

lemma indexed_expenses:
  assumes "wf_db s" and "kv \<in> set (expenses_store s)"
  shows "Val (fst kv) \<in> expense_id ` set (getExpensesByFarm fid s) \<longleftrightarrow> farmId (snd kv) = Val fid"
proof
  assume "farmId (snd kv) = Val fid"
  with assms(2) have "snd kv \<in> set (getExpensesByFarm fid s)"
    by (auto simp: getExpensesByFarm_def getAllExpenses_def store_getAll_def)
  moreover from assms have "expense_id (snd kv) = Val (fst kv)"
    by (auto simp: wf_db_def keyed_by_def list_all_iff)
  ultimately show "Val (fst kv) \<in> expense_id ` set (getExpensesByFarm fid s)"
    by (metis imageI)
next
  assume "Val (fst kv) \<in> expense_id ` set (getExpensesByFarm fid s)"
  then obtain kv' where mem: "kv' \<in> set (expenses_store s)"
    and fid: "farmId (snd kv') = Val fid" and id: "expense_id (snd kv') = Val (fst kv)"
    by (auto simp: getExpensesByFarm_def getAllExpenses_def store_getAll_def)
  from assms(1) mem have "expense_id (snd kv') = Val (fst kv')"
    by (auto simp: wf_db_def keyed_by_def list_all_iff)
  with id have same_key: "fst kv' = fst kv"
    by simp
  from assms(1) have "distinct (map fst (expenses_store s))"
    by (simp add: wf_db_def keys_ascend_distinct)
  with mem assms(2) same_key have "kv' = kv"
    by (metis eq_key_imp_eq_value prod.collapse)
  with fid show "farmId (snd kv) = Val fid"
    by simp
qed

lemma stored_expense_ids:
  assumes "wf_db s"
  shows "\<forall>e \<in> set (getExpensesByFarm fid s). \<exists>k. expense_id e = Val k"
  using assms
  by (auto simp: wf_db_def keyed_by_def list_all_iff getExpensesByFarm_def getAllExpenses_def
      store_getAll_def)

lemma deleteExpensesByFarm_result:
  assumes "wf_db s"
  shows "deleteExpensesByFarm fid s =
     (Inr (), s\<lparr>expenses_store :=
                  filter (\<lambda>kv. farmId (snd kv) \<noteq> Val fid) (expenses_store s)\<rparr>)"
proof -
  have "filter (\<lambda>kv. Val (fst kv) \<notin> expense_id ` set (getExpensesByFarm fid s)) (expenses_store s)
      = filter (\<lambda>kv. farmId (snd kv) \<noteq> Val fid) (expenses_store s)"
    by (rule filter_cong [OF refl]) (simp add: indexed_expenses [OF assms])
  then show ?thesis
    by (simp add: deleteExpensesByFarm_def delete_each_result [OF stored_expense_ids [OF assms]])
qed

text \<open>
  Claim C8. In a well-formed database \<^verbatim>\<open>deleteExpensesByFarm\<close> succeeds; after
  it \<^verbatim>\<open>getExpensesByFarm\<close> of the same farm is the empty list, the expenses
  left are exactly those whose \<^verbatim>\<open>farmId\<close> is another (or none), unchanged and
  in their order, so that the expenses of every other farm are as before; the
  farms, the settings and the legacy record are untouched.
\<close>

theorem deleteExpensesByFarm_clears_farm:
  assumes "wf_db s"
  shows "fst (deleteExpensesByFarm fid s) = Inr ()
       \<and> getExpensesByFarm fid (snd (deleteExpensesByFarm fid s)) = []
       \<and> getAllExpenses (snd (deleteExpensesByFarm fid s))
           = filter (\<lambda>e. farmId e \<noteq> Val fid) (getAllExpenses s)
       \<and> (fid' \<noteq> fid \<longrightarrow>
            getExpensesByFarm fid' (snd (deleteExpensesByFarm fid s)) = getExpensesByFarm fid' s)
       \<and> farms_store (snd (deleteExpensesByFarm fid s)) = farms_store s
       \<and> settings_store (snd (deleteExpensesByFarm fid s)) = settings_store s
       \<and> farmInfo_store (snd (deleteExpensesByFarm fid s)) = farmInfo_store s"
proof -
  have all: "getAllExpenses (snd (deleteExpensesByFarm fid s))
      = filter (\<lambda>e. farmId e \<noteq> Val fid) (getAllExpenses s)"
    by (simp add: deleteExpensesByFarm_result [OF assms] getAllExpenses_def store_getAll_def
        filter_map comp_def)
  have gone: "getExpensesByFarm fid (snd (deleteExpensesByFarm fid s)) = []"
    by (simp add: getExpensesByFarm_def all filter_empty_conv)
  have others: "fid' \<noteq> fid \<longrightarrow>
      getExpensesByFarm fid' (snd (deleteExpensesByFarm fid s)) = getExpensesByFarm fid' s"
    by (auto simp: getExpensesByFarm_def all intro: filter_cong)
  show ?thesis
    using all gone others by (simp add: deleteExpensesByFarm_result [OF assms])
qed

theorem deleteExpensesByFarm_clears_farm_witness:
  "wf_db sample_db
   \<and> getExpensesByFarm ''farm_1'' sample_db = [seeds]
   \<and> fst (deleteExpensesByFarm ''farm_1'' sample_db) = Inr ()
   \<and> getExpensesByFarm ''farm_1'' (snd (deleteExpensesByFarm ''farm_1'' sample_db)) = []
   \<and> getAllExpenses (snd (deleteExpensesByFarm ''farm_1'' sample_db))
       = filter (\<lambda>e. farmId e \<noteq> Val ''farm_1'') (getAllExpenses sample_db)
   \<and> ''farm_2'' \<noteq> ''farm_1''
   \<and> getExpensesByFarm ''farm_2'' (snd (deleteExpensesByFarm ''farm_1'' sample_db))
       = getExpensesByFarm ''farm_2'' sample_db
   \<and> getExpensesByFarm ''farm_2'' sample_db = [fertilizer]"
proof -
  have wf: "wf_db sample_db"
    by code_simp
  have before: "getExpensesByFarm ''farm_1'' sample_db = [seeds]"
    by code_simp
  have other: "''farm_2'' \<noteq> ''farm_1''"
    by simp
  have kept: "getExpensesByFarm ''farm_2'' sample_db = [fertilizer]"
    by code_simp
  note inst = deleteExpensesByFarm_clears_farm [OF wf, where fid = "''farm_1''"
      and fid' = "''farm_2''"]
  note others = inst [THEN conjunct2, THEN conjunct2, THEN conjunct2, THEN conjunct1,
      THEN mp, OF other]
  from wf before other kept inst others show ?thesis
    apply -
    apply (elim conjE)
    apply (intro conjI)
           apply assumption+
    done
qed

subsection \<open>Backup and restore\<close>

lemma keys_ascend_append:
  "keys_ascend (pre @ (k, v) # rest) \<Longrightarrow> \<forall>k' \<in> set (map fst pre). k' < k"
  by (auto simp: keys_ascend_def sorted_wrt_append)

lemma store_put_snoc:
  "\<forall>k' \<in> set (map fst pre). k' < k \<Longrightarrow> store_put k v pre = pre @ [(k, v)]"
  using store_put_append [of pre k v "[]"] by simp

lemma import_farms_ascending:
  assumes "keys_ascend (pre @ todo)" and "keyed_by farm_id todo"
    and "list_all (\<lambda>kv. fst kv \<noteq> []) todo" and "farms_store s = pre"
  shows "import_farms clk (map snd todo) s = (Inr (), s\<lparr>farms_store := pre @ todo\<rparr>)"
  using assms
proof (induction todo arbitrary: pre s clk)
  case Nil
  then show ?case by simp
next
  case (Cons kv todo)
  obtain k f where kv: "kv = (k, f)" by (cases kv)
  from Cons.prems(2,3) have key: "farm_id f = Val k" "k \<noteq> []"
    by (simp_all add: kv keyed_by_def)
  from Cons.prems(1) have "\<forall>k' \<in> set (map fst pre). k' < k"
    unfolding kv by (rule keys_ascend_append)
  then have put: "store_put k f pre = pre @ [(k, f)]"
    by (rule store_put_snoc)
  have step: "saveFarm (clk 0) f s = (Inr k, s\<lparr>farms_store := pre @ [(k, f)]\<rparr>)"
    by (simp add: saveFarm_existing [OF key] Cons.prems(4) put)
  have rest: "import_farms (\<lambda>n. clk (Suc n)) (map snd todo) (s\<lparr>farms_store := pre @ [(k, f)]\<rparr>)
      = (Inr (), s\<lparr>farms_store := pre @ [(k, f)]\<rparr>\<lparr>farms_store := (pre @ [(k, f)]) @ todo\<rparr>)"
    using Cons.prems by (intro Cons.IH) (simp_all add: kv keyed_by_def)
  show ?case
    by (simp add: kv step rest)
qed

lemma import_expenses_ascending:
  assumes "keys_ascend (pre @ todo)" and "keyed_by expense_id todo" and "expenses_store s = pre"
  shows "import_expenses (map snd todo) s = (Inr (), s\<lparr>expenses_store := pre @ todo\<rparr>)"
  using assms
proof (induction todo arbitrary: pre s)
  case Nil
  then show ?case by simp
next
  case (Cons kv todo)
  obtain k e where kv: "kv = (k, e)" by (cases kv)
  from Cons.prems(2) have key: "expense_id e = Val k"
    by (simp add: kv keyed_by_def)
  from Cons.prems(1) have "\<forall>k' \<in> set (map fst pre). k' < k"
    unfolding kv by (rule keys_ascend_append)
  then have put: "store_put k e pre = pre @ [(k, e)]"
    by (rule store_put_snoc)
  have step: "saveExpense e s = (Inr (), s\<lparr>expenses_store := pre @ [(k, e)]\<rparr>)"
    by (simp add: saveExpense_def key Cons.prems(3) put)
  have rest: "import_expenses (map snd todo) (s\<lparr>expenses_store := pre @ [(k, e)]\<rparr>)
      = (Inr (), s\<lparr>expenses_store := pre @ [(k, e)]\<rparr>\<lparr>expenses_store := (pre @ [(k, e)]) @ todo\<rparr>)"
    using Cons.prems by (intro Cons.IH) (simp_all add: kv keyed_by_def)
  show ?case
    by (simp add: kv step rest)
qed

lemma restore_selected_same: "getSelectedFarmId (restore_selected (getSelectedFarmId s) s) = getSelectedFarmId s"
  by (auto simp: restore_selected_def getSelectedFarmId_def setSelectedFarmId_def
      store_get_put_same split: option.splits)

lemma restore_selected_stores:
  "farms_store (restore_selected sel s) = farms_store s"
  "expenses_store (restore_selected sel s) = expenses_store s"
  "farmInfo_store (restore_selected sel s) = farmInfo_store s"
  by (cases sel; simp add: restore_selected_def setSelectedFarmId_def)+

lemma import_exported:
  assumes "wf_db s"
  shows "importAllData clk
           (Val \<lparr>version = Val ''1.0'', exportDate = Val (toISOString now),
                 selectedFarmId = getSelectedFarmId s, farms = Val (getAllFarms s),
                 expenses = Val (getAllExpenses s)\<rparr>) s
         = (Inr \<lparr>farmsImported = length (getAllFarms s),
                 expensesImported = length (getAllExpenses s)\<rparr>,
            restore_selected (getSelectedFarmId s) s)"
proof -
  let ?s0 = "s\<lparr>farms_store := [], expenses_store := []\<rparr>"
  from assms have f: "keys_ascend ([] @ farms_store s)" "keyed_by farm_id (farms_store s)"
      "list_all (\<lambda>kv. fst kv \<noteq> []) (farms_store s)"
    and e: "keys_ascend ([] @ expenses_store s)" "keyed_by expense_id (expenses_store s)"
    by (simp_all add: wf_db_def)
  have farms_in: "import_farms clk (getAllFarms s) ?s0 = (Inr (), s\<lparr>expenses_store := []\<rparr>)"
    using import_farms_ascending [OF f, of ?s0 clk]
    by (simp add: getAllFarms_def store_getAll_def)
  have expenses_in: "import_expenses (getAllExpenses s) (s\<lparr>expenses_store := []\<rparr>) = (Inr (), s)"
    using import_expenses_ascending [OF e, of "s\<lparr>expenses_store := []\<rparr>"]
    by (simp add: getAllExpenses_def store_getAll_def)
  have "import_document clk
           \<lparr>version = Val ''1.0'', exportDate = Val (toISOString now),
            selectedFarmId = getSelectedFarmId s, farms = Val (getAllFarms s),
            expenses = Val (getAllExpenses s)\<rparr> s
         = (Inr \<lparr>farmsImported = length (getAllFarms s),
                 expensesImported = length (getAllExpenses s)\<rparr>,
            restore_selected (getSelectedFarmId s) s)"
    unfolding import_document_def
    by (simp only: backup.simps list_of_def js.case farms_in expenses_in prod.case sum.case)
  then show ?thesis
    by (simp add: importAllData_def)
qed

text \<open>
  Claim C1. \<^verbatim>\<open>exportAllData\<close> succeeds and leaves the database as it found it.
  In a well-formed database, \<^verbatim>\<open>importAllData\<close> of the exported document into
  the same database succeeds, counts the farms and expenses, and restores the
  farms store and the expenses store exactly (every farm and expense under its
  id with all its properties, so the sets of farms and of expenses are the
  same); the selected farm is the one before the export, and the legacy record
  is untouched.
\<close>

theorem export_then_import:
  assumes "wf_db s"
  shows "snd (exportAllData now s) = s
       \<and> (\<exists>document. fst (exportAllData now s) = Inr document)
       \<and> (fst (exportAllData now s) = Inr doc \<longrightarrow>
            fst (importAllData clk (Val doc) s)
              = Inr \<lparr>farmsImported = length (getAllFarms s),
                     expensesImported = length (getAllExpenses s)\<rparr>
            \<and> farms_store (snd (importAllData clk (Val doc) s)) = farms_store s
            \<and> expenses_store (snd (importAllData clk (Val doc) s)) = expenses_store s
            \<and> set (getAllFarms (snd (importAllData clk (Val doc) s))) = set (getAllFarms s)
            \<and> set (getAllExpenses (snd (importAllData clk (Val doc) s))) = set (getAllExpenses s)
            \<and> getSelectedFarmId (snd (importAllData clk (Val doc) s)) = getSelectedFarmId s
            \<and> farmInfo_store (snd (importAllData clk (Val doc) s)) = farmInfo_store s)"
proof (intro conjI impI)
  show "snd (exportAllData now s) = s"
    by (simp add: exportAllData_def)
  show "\<exists>document. fst (exportAllData now s) = Inr document"
    by (simp add: exportAllData_def)
next
  assume "fst (exportAllData now s) = Inr doc"
  then have doc: "doc = \<lparr>version = Val ''1.0'', exportDate = Val (toISOString now),
      selectedFarmId = getSelectedFarmId s, farms = Val (getAllFarms s),
      expenses = Val (getAllExpenses s)\<rparr>"
    by (simp add: exportAllData_def)
  have run: "importAllData clk (Val doc) s
      = (Inr \<lparr>farmsImported = length (getAllFarms s),
               expensesImported = length (getAllExpenses s)\<rparr>,
         restore_selected (getSelectedFarmId s) s)"
    unfolding doc by (rule import_exported [OF assms])
  show "fst (importAllData clk (Val doc) s)
      = Inr \<lparr>farmsImported = length (getAllFarms s),
             expensesImported = length (getAllExpenses s)\<rparr>"
    by (simp add: run)
  show "farms_store (snd (importAllData clk (Val doc) s)) = farms_store s"
    by (simp add: run restore_selected_stores)
  show "expenses_store (snd (importAllData clk (Val doc) s)) = expenses_store s"
    by (simp add: run restore_selected_stores)
  show "set (getAllFarms (snd (importAllData clk (Val doc) s))) = set (getAllFarms s)"
    by (simp add: run getAllFarms_def restore_selected_stores)
  show "set (getAllExpenses (snd (importAllData clk (Val doc) s))) = set (getAllExpenses s)"
    by (simp add: run getAllExpenses_def restore_selected_stores)
  show "getSelectedFarmId (snd (importAllData clk (Val doc) s)) = getSelectedFarmId s"
    by (simp add: run restore_selected_same)
  show "farmInfo_store (snd (importAllData clk (Val doc) s)) = farmInfo_store s"
    by (simp add: run restore_selected_stores)
qed

theorem export_then_import_witness:
  "wf_db sample_db
   \<and> fst (exportAllData t0 sample_db) = Inr sample_backup
   \<and> snd (exportAllData t0 sample_db) = sample_db
   \<and> fst (importAllData still (Val sample_backup) sample_db)
       = Inr \<lparr>farmsImported = length (getAllFarms sample_db),
              expensesImported = length (getAllExpenses sample_db)\<rparr>
   \<and> farms_store (snd (importAllData still (Val sample_backup) sample_db)) = farms_store sample_db
   \<and> expenses_store (snd (importAllData still (Val sample_backup) sample_db))
       = expenses_store sample_db
   \<and> set (getAllFarms (snd (importAllData still (Val sample_backup) sample_db)))
       = set (getAllFarms sample_db)
   \<and> set (getAllExpenses (snd (importAllData still (Val sample_backup) sample_db)))
       = set (getAllExpenses sample_db)
   \<and> getSelectedFarmId (snd (importAllData still (Val sample_backup) sample_db))
       = getSelectedFarmId sample_db
   \<and> farmInfo_store (snd (importAllData still (Val sample_backup) sample_db))
       = farmInfo_store sample_db"
proof -
  have wf: "wf_db sample_db"
    by code_simp
  have exported: "fst (exportAllData t0 sample_db) = Inr sample_backup"
    by code_simp
  note inst = export_then_import [OF wf, where now = t0 and clk = still and doc = sample_backup]
  note pure = inst [THEN conjunct1]
  note imported = inst [THEN conjunct2, THEN conjunct2, THEN mp, OF exported]
  from wf exported pure imported show ?thesis
    apply -
    apply (elim conjE)
    apply (intro conjI)
             apply assumption+
    done
qed

subsection \<open>Migration of the legacy record\<close>

lemma store_put_present:
  "\<forall>k' \<in> set (map fst pre). k' < k \<Longrightarrow>
     store_put k v (pre @ (k, w) # rest) = pre @ (k, v) # rest"
  by (simp add: store_put_append)

lemma link_expenses_ascending:
  assumes "keys_ascend (pre @ todo)" and "keyed_by expense_id todo"
    and "expenses_store s = pre @ todo"
  shows "link_expenses newId (map snd todo) s =
     (Inr (), s\<lparr>expenses_store := pre @ map (\<lambda>kv. (fst kv, relinked newId (snd kv))) todo\<rparr>)"
  using assms
proof (induction todo arbitrary: pre s)
  case Nil
  then show ?case by simp
next
  case (Cons kv todo)
  obtain k e where kv: "kv = (k, e)" by (cases kv)
  from Cons.prems(2) have key: "expense_id e = Val k" and keyed: "keyed_by expense_id todo"
    by (simp_all add: kv keyed_by_def)
  from Cons.prems(1) have below: "\<forall>k' \<in> set (map fst pre). k' < k"
    unfolding kv by (rule keys_ascend_append)
  let ?e' = "relinked newId e"
  let ?s' = "s\<lparr>expenses_store := (pre @ [(k, ?e')]) @ todo\<rparr>"
  have ascend: "keys_ascend ((pre @ [(k, ?e')]) @ todo)"
    using Cons.prems(1) by (simp add: kv keys_ascend_def)
  have rest: "link_expenses newId (map snd todo) ?s' =
      (Inr (), ?s'\<lparr>expenses_store :=
          (pre @ [(k, ?e')]) @ map (\<lambda>kv. (fst kv, relinked newId (snd kv))) todo\<rparr>)"
    by (rule Cons.IH [OF ascend keyed]) simp
  show ?case
  proof (cases "truthy (farmId e)")
    case True
    then have same: "?e' = e" by (simp add: relinked_def)
    have "?s' = s"
      using Cons.prems(3) by (simp add: same kv)
    with True rest show ?thesis
      by (simp add: kv same)
  next
    case False
    then have e': "?e' = e\<lparr>farmId := Val newId\<rparr>" by (simp add: relinked_def)
    have "saveExpense (e\<lparr>farmId := Val newId\<rparr>) s = (Inr (), ?s')"
      by (simp add: saveExpense_def key Cons.prems(3) kv store_put_present [OF below] e')
    with False rest show ?thesis
      by (simp add: kv e')
  qed
qed

lemma migrateLegacyData_result:
  assumes "wf_db s" and "getItem JSON_parse ''farmInfo'' s = Some legacyFarm"
    and "getAllFarms s = []"
  shows "migrateLegacyData JSON_parse clk s =
     s\<lparr>farms_store :=
         [(''farm_'' @ decimal (clk 0),
           \<lparr>farm_id = Val (''farm_'' @ decimal (clk 0)),
            farm_name = legacy_name legacyFarm, farm_size = legacy_size legacyFarm,
            startDate = legacy_startDate legacyFarm, cropping = legacy_cropping legacyFarm,
            completed = Undefined, completedDate = Undefined,
            createdAt = Val (toISOString (clk 1)), updatedAt = Undefined,
            taskCompletions = Undefined\<rparr>)],
       settings_store := store_put ''selectedFarmId'' (''farm_'' @ decimal (clk 0)) (settings_store s),
       expenses_store := map (\<lambda>kv. (fst kv, relinked (''farm_'' @ decimal (clk 0)) (snd kv)))
                           (expenses_store s)\<rparr>"
proof -
  let ?newId = "''farm_'' @ decimal (clk 0)"
  let ?newFarm = "\<lparr>farm_id = Val ?newId,
            farm_name = legacy_name legacyFarm, farm_size = legacy_size legacyFarm,
            startDate = legacy_startDate legacyFarm, cropping = legacy_cropping legacyFarm,
            completed = Undefined, completedDate = Undefined,
            createdAt = Val (toISOString (clk 1)), updatedAt = Undefined,
            taskCompletions = Undefined\<rparr>"
  let ?s2 = "setSelectedFarmId ?newId (s\<lparr>farms_store := [(?newId, ?newFarm)]\<rparr>)"
  from assms(3) have empty: "farms_store s = []"
    by (simp add: getAllFarms_def store_getAll_def)
  have saved: "saveFarm (clk 2) ?newFarm s = (Inr ?newId, s\<lparr>farms_store := [(?newId, ?newFarm)]\<rparr>)"
    by (simp add: saveFarm_def empty)
  from assms(1) have e: "keys_ascend ([] @ expenses_store s)" "keyed_by expense_id (expenses_store s)"
    by (simp_all add: wf_db_def)
  have linked: "link_expenses ?newId (getAllExpenses ?s2) ?s2 =
      (Inr (), ?s2\<lparr>expenses_store :=
         [] @ map (\<lambda>kv. (fst kv, relinked ?newId (snd kv))) (expenses_store s)\<rparr>)"
    unfolding getAllExpenses_def store_getAll_def
    by (simp add: setSelectedFarmId_def link_expenses_ascending [OF e])
  have nofarms: "\<not> length (getAllFarms s) > 0"
    by (simp add: assms(3))
  have "migrateLegacyData JSON_parse clk s =
      ?s2\<lparr>expenses_store := [] @ map (\<lambda>kv. (fst kv, relinked ?newId (snd kv))) (expenses_store s)\<rparr>"
    unfolding migrateLegacyData_def
    by (simp only: assms(2) option.case nofarms if_False Let_def saved prod.case sum.case
        linked snd_conv)
  then show ?thesis
    by (simp add: setSelectedFarmId_def)
qed

text \<open>
  Claim C3. Let the legacy record exist and no farm, in a well-formed database.
  After \<^verbatim>\<open>migrateLegacyData\<close> there is exactly one farm: it has the name, size,
  start date and cropping of the legacy record and the id \<^verbatim>\<open>farm_\<close> followed by
  the clock reading. That id is the selected farm. Every expense that had no
  \<^verbatim>\<open>farmId\<close> now carries that id, and the other expenses are as they were. The
  legacy record stays. A second \<^verbatim>\<open>migrateLegacyData\<close>, at whatever time, changes
  nothing, so it adds no farm.
\<close>

theorem migrateLegacyData_once:
  assumes "wf_db s" and "getItem JSON_parse ''farmInfo'' s = Some legacyFarm"
    and "getAllFarms s = []"
  shows "getAllFarms (migrateLegacyData JSON_parse clk s)
           = [\<lparr>farm_id = Val (''farm_'' @ decimal (clk 0)),
               farm_name = legacy_name legacyFarm, farm_size = legacy_size legacyFarm,
               startDate = legacy_startDate legacyFarm, cropping = legacy_cropping legacyFarm,
               completed = Undefined, completedDate = Undefined,
               createdAt = Val (toISOString (clk 1)), updatedAt = Undefined,
               taskCompletions = Undefined\<rparr>]
       \<and> getSelectedFarmId (migrateLegacyData JSON_parse clk s) = Val (''farm_'' @ decimal (clk 0))
       \<and> getAllExpenses (migrateLegacyData JSON_parse clk s)
           = map (relinked (''farm_'' @ decimal (clk 0))) (getAllExpenses s)
       \<and> (\<not> truthy (farmId e) \<longrightarrow>
            relinked (''farm_'' @ decimal (clk 0)) e = e\<lparr>farmId := Val (''farm_'' @ decimal (clk 0))\<rparr>)
       \<and> (truthy (farmId e) \<longrightarrow> relinked (''farm_'' @ decimal (clk 0)) e = e)
       \<and> farmInfo_store (migrateLegacyData JSON_parse clk s) = farmInfo_store s
       \<and> migrateLegacyData JSON_parse clk' (migrateLegacyData JSON_parse clk s)
           = migrateLegacyData JSON_parse clk s"
proof -
  define newId where "newId = ''farm_'' @ decimal (clk 0)"
  define m where "m = migrateLegacyData JSON_parse clk s"
  note result = migrateLegacyData_result [OF assms, of clk, folded newId_def m_def]
  have farms: "getAllFarms m
           = [\<lparr>farm_id = Val newId,
               farm_name = legacy_name legacyFarm, farm_size = legacy_size legacyFarm,
               startDate = legacy_startDate legacyFarm, cropping = legacy_cropping legacyFarm,
               completed = Undefined, completedDate = Undefined,
               createdAt = Val (toISOString (clk 1)), updatedAt = Undefined,
               taskCompletions = Undefined\<rparr>]"
    by (simp add: result getAllFarms_def store_getAll_def)
  have "newId \<noteq> []"
    by (simp add: newId_def)
  then have selected: "getSelectedFarmId m = Val newId"
    by (simp add: result getSelectedFarmId_def store_get_put_same)
  have expenses: "getAllExpenses m = map (relinked newId) (getAllExpenses s)"
    by (simp add: result getAllExpenses_def store_getAll_def comp_def)
  have legacy: "farmInfo_store m = farmInfo_store s"
    by (simp add: result)
  have "length (getAllFarms m) > 0"
    by (simp add: farms)
  then have again: "migrateLegacyData JSON_parse clk' m = m"
    by (simp add: migrateLegacyData_def split: option.split)
  have falsy: "\<not> truthy (farmId e) \<longrightarrow> relinked newId e = e\<lparr>farmId := Val newId\<rparr>"
    and truthy: "truthy (farmId e) \<longrightarrow> relinked newId e = e"
    by (simp_all add: relinked_def)
  from farms selected expenses falsy truthy legacy again show ?thesis
    unfolding newId_def m_def by (intro conjI)
qed

theorem migrateLegacyData_once_witness:
  "wf_db legacy_db
   \<and> getItem parse_legacy ''farmInfo'' legacy_db
       = Some \<lparr>legacy_name = Val ''Plot A'', legacy_size = Val (3 / 2),
                legacy_startDate = Val ''2025-01-01'', legacy_cropping = Val ''first''\<rparr>
   \<and> getAllFarms legacy_db = []
   \<and> getAllExpenses legacy_db = [labor, labor\<lparr>expense_id := Val ''exp_4'', farmId := Null\<rparr>]
   \<and> \<not> truthy (farmId labor)
   \<and> getAllFarms (migrateLegacyData parse_legacy still legacy_db)
       = [\<lparr>farm_id = Val ''farm_1741564800000'',
           farm_name = Val ''Plot A'', farm_size = Val (3 / 2),
           startDate = Val ''2025-01-01'', cropping = Val ''first'',
           completed = Undefined, completedDate = Undefined,
           createdAt = Val ''2025-03-10T00:00:00.000Z'', updatedAt = Undefined,
           taskCompletions = Undefined\<rparr>]
   \<and> getSelectedFarmId (migrateLegacyData parse_legacy still legacy_db)
       = Val ''farm_1741564800000''
   \<and> getAllExpenses (migrateLegacyData parse_legacy still legacy_db)
       = map (relinked ''farm_1741564800000'') (getAllExpenses legacy_db)
   \<and> relinked ''farm_1741564800000'' labor = labor\<lparr>farmId := Val ''farm_1741564800000''\<rparr>
   \<and> migrateLegacyData parse_legacy still (migrateLegacyData parse_legacy still legacy_db)
       = migrateLegacyData parse_legacy still legacy_db"
proof -
  have wf: "wf_db legacy_db"
    by code_simp
  have legacy: "getItem parse_legacy ''farmInfo'' legacy_db
       = Some \<lparr>legacy_name = Val ''Plot A'', legacy_size = Val (3 / 2),
                legacy_startDate = Val ''2025-01-01'', legacy_cropping = Val ''first''\<rparr>"
    by code_simp
  have no_farm: "getAllFarms legacy_db = []"
    by code_simp
  have two: "getAllExpenses legacy_db = [labor, labor\<lparr>expense_id := Val ''exp_4'', farmId := Null\<rparr>]"
    by code_simp
  have unlinked: "\<not> truthy (farmId labor)"
    by code_simp
  have new_id: "''farm_'' @ decimal (still 0) = ''farm_1741564800000''"
    by code_simp
  have created: "toISOString (still 1) = ''2025-03-10T00:00:00.000Z''"
    by code_simp
  note inst = migrateLegacyData_once [OF wf legacy no_farm, where clk = still and clk' = still
      and e = labor, unfolded new_id created legacy.select_convs]
  note linked = inst [THEN conjunct2, THEN conjunct2, THEN conjunct2, THEN conjunct1,
      THEN mp, OF unlinked]
  from wf legacy no_farm two unlinked inst linked show ?thesis
    apply -
    apply (elim conjE)
    apply (intro conjI)
             apply assumption+
    done
qed

end
